theory Spec2Isabelle
  imports Main "HOL-Library.Finite_Map"
begin

section \<open>The identity service of the cothority: data model\<close>

text \<open>
  The development follows \<^verbatim>\<open>services/identity/service.go\<close>. One identity is shared between
  several devices; a change of its configuration is proposed, voted on by the devices and, once
  enough votes are in, appended to the identity's skipchain and installed on every server of the
  roster.

  Go pointers that the code itself leaves or sets to \<^verbatim>\<open>nil\<close> are options: the fields
  \<^verbatim>\<open>Latest\<close> and \<^verbatim>\<open>Proposed\<close> of a storage, the map \<^verbatim>\<open>Votes\<close> (a
  \<^verbatim>\<open>nil\<close> map reads as empty and panics on assignment), a vote's signature, the
  configuration carried by a request and every identifier (a byte slice). The skipblocks of a
  storage and of a message come out of successful ledger calls and are values. Go maps are finite
  maps, so that \<^verbatim>\<open>len\<close> is the cardinality of the domain; the \<^verbatim>\<open>Device\<close> map of a
  configuration is only read, where a \<^verbatim>\<open>nil\<close> map and an empty one behave alike.
  The model runs one request at a time. The mutex of a storage is the one thing of it that such
  a run can still see: \<^verbatim>\<open>ProposeVote\<close> locks the storage at line 151 and unlocks it at line
  174 only, so that its panic and its rejecting returns leave the mutex held, and whoever locks
  that storage next, a request or the handler of a propagated message, never returns. The world
  records which mutexes are held; the handler itself locks and unlocks with
  \<^verbatim>\<open>defer\<close> and leaves no trace there.
\<close>

type_synonym bytes = string
type_synonym ID = "bytes option"
type_synonym ServerIdentity = nat
type_synonym Point = nat
type_synonym SchnorrSig = nat

record Device =
  Point :: Point

record Config =
  Threshold :: int
  Device :: "(string, Device) fmap"

text \<open>A skipblock. Its hash is a byte slice; \<open>sb_HashSpare\<close> is what the capacity of that
  slice has beyond its length (a \<^verbatim>\<open>nil\<close> slice has neither).\<close>

record SkipBlock =
  sb_Hash :: ID
  sb_HashSpare :: nat
  sb_Data :: bytes
  sb_Roster :: "ServerIdentity list"

record storage =
  Latest :: "Config option"
  Proposed :: "Config option"
  Votes :: "(string, SchnorrSig option) fmap option"
  Root :: SkipBlock
  Data :: SkipBlock

record Service =
  identities :: "string \<rightharpoonup> storage"

text \<open>The messages of the service. The record types carry the suffix \<open>Msg\<close>, since the
  service's methods have the names of the Go message types.\<close>

record AddIdentityMsg =
  ai_Config :: "Config option"
  ai_Roster :: "ServerIdentity list"

record AddIdentityReply =
  air_Root :: SkipBlock
  air_Data :: SkipBlock

record ProposeSendMsg =
  ps_ID :: ID
  ps_Config :: "Config option"

record ProposeVoteMsg =
  pv_ID :: ID
  Signer :: string
  Signature :: "SchnorrSig option"

record UpdateSkipBlockMsg =
  usb_ID :: ID
  usb_Latest :: SkipBlock

datatype msg =
    MProposeSend ProposeSendMsg
  | MProposeVote ProposeVoteMsg
  | MUpdateSkipBlock UpdateSkipBlockMsg
  | MPropagateIdentity storage
  | MOther

text \<open>The errors, named as in the specification's taxonomy; the comment gives the text of the
  Go error. Errors of the ledger and of the propagation are passed through as they come.\<close>

datatype error =
    NotFound            \<comment> \<open>\<^verbatim>\<open>Didn't find identity\<close>\<close>
  | SignerUnknown       \<comment> \<open>\<^verbatim>\<open>Didn't find signer\<close>\<close>
  | NoProposal          \<comment> \<open>\<^verbatim>\<open>No proposed block\<close>\<close>
  | HashFailed          \<comment> \<open>\<^verbatim>\<open>Couldn't get hash\<close>\<close>
  | DuplicateVote       \<comment> \<open>\<^verbatim>\<open>Already voted for that block\<close>\<close>
  | BadSignature        \<comment> \<open>\<^verbatim>\<open>Wrong signature: ...\<close>\<close>
  | DuplicateIdentity   \<comment> \<open>in the taxonomy; no line of the service creates it\<close>
  | LedgerError
  | PropagationError

text \<open>A call returns, or panics (a \<^verbatim>\<open>nil\<close> dereference, an assignment to a
  \<^verbatim>\<open>nil\<close> map, a failed type assertion, a slice out of range), or never returns because
  it waits for a mutex that nobody releases.\<close>

datatype 'a outcome = Panic | Blocked | Done 'a

text \<open>What \<^verbatim>\<open>network.UnmarshalRegistered\<close> followed by the type assertion to
  \<^verbatim>\<open>*Config\<close> can give.\<close>

datatype decoded = DecodeError | OtherBody | ConfigBody Config

text \<open>
  The collaborators of the service that are not part of it are parameters: the hash of a
  configuration (\<^verbatim>\<open>Config.Hash\<close>), the signature check (\<^verbatim>\<open>crypto.VerifySchnorr\<close>,
  true when it returns no error), the decoder, the three calls of the skipchain client, and the
  error with which the propagation protocol refuses to start, if it does.
\<close>

record env =
  Config_Hash :: "Config \<Rightarrow> bytes option"
  VerifySchnorr :: "Point \<Rightarrow> bytes \<Rightarrow> SchnorrSig \<Rightarrow> bool"
  UnmarshalRegistered :: "bytes \<Rightarrow> decoded"
  CreateRoster :: "ServerIdentity list \<Rightarrow> error + SkipBlock"
  CreateData :: "SkipBlock \<Rightarrow> Config option \<Rightarrow> error + SkipBlock \<times> SkipBlock"
  ProposeData :: "SkipBlock \<Rightarrow> SkipBlock \<Rightarrow> Config \<Rightarrow> error + SkipBlock"
  PropagateRefused :: "msg \<Rightarrow> error option"

text \<open>The servers with their services, the requests that reached the ledger through
  \<^verbatim>\<open>skipchain.ProposeData\<close>, oldest first, and the mutexes that are held: the pair of a
  server and a key stands for the mutex of the storage that the server has registered under the
  key. A storage stays registered under its key for good, so the key names the mutex. A newly
  registered storage comes with a mutex of its own, which is free; a pair whose server holds
  nothing under the key stands for no mutex and is never looked at.\<close>

record world =
  servers :: "ServerIdentity \<Rightarrow> Service"
  ledger :: "(SkipBlock \<times> SkipBlock \<times> Config) list"
  held :: "(ServerIdentity \<times> string) set"

section \<open>The registry of identities\<close>

text \<open>\<^verbatim>\<open>string(id)\<close>: a \<^verbatim>\<open>nil\<close> slice converts to the empty string.\<close>

definition key :: "ID \<Rightarrow> string" where
  "key i = (case i of None \<Rightarrow> [] | Some b \<Rightarrow> b)"

definition getIdentityStorage :: "Service \<Rightarrow> ID \<Rightarrow> storage option" where
  "getIdentityStorage s i = identities s (key i)"

text \<open>The capacity of a byte slice of which the model has the bytes and the spare capacity.\<close>

definition cap :: "ID \<Rightarrow> nat \<Rightarrow> nat" where
  "cap i spare = (case i of None \<Rightarrow> 0 | Some b \<Rightarrow> length b + spare)"

text \<open>\<^verbatim>\<open>setIdentityStorage\<close> logs \<^verbatim>\<open>id[0:8]\<close> and \<^verbatim>\<open>is.Latest.Device\<close> before it
  stores: the arguments are evaluated, so an identifier whose capacity is below 8 (the slice
  expression is bounded by the capacity, not by the length) or a \<^verbatim>\<open>nil\<close>
  \<^verbatim>\<open>Latest\<close> panics. The second argument of the model is the spare capacity of
  \<^verbatim>\<open>id\<close>.\<close>

definition setIdentityStorage :: "Service \<Rightarrow> ID \<Rightarrow> nat \<Rightarrow> storage \<Rightarrow> Service outcome" where
  "setIdentityStorage s i spare st =
     (if cap i spare < 8 then Panic
      else if Latest st = None then Panic
      else Done (s\<lparr>identities := (identities s)(key i \<mapsto> st)\<rparr>))"

section \<open>Propagate: what every server does with a propagated message\<close>

text \<open>\<open>Propagate\<close> is the handler from the moment it has the mutex of the storage (line 253;
  the mutex is released when the handler returns). Whether it gets the mutex is decided where
  the handler is called, in \<open>waits\<close> and \<open>deliver\<close> below.\<close>

text \<open>The first \<^verbatim>\<open>switch\<close> of \<^verbatim>\<open>Propagate\<close>: the identifier of the message. The
  case of a new identity returns on its own and is part of \<open>Propagate\<close> below.\<close>

fun msgID :: "msg \<Rightarrow> ID" where
  "msgID (MProposeSend p) = ps_ID p"
| "msgID (MProposeVote v) = pv_ID v"
| "msgID (MUpdateSkipBlock u) = usb_ID u"
| "msgID (MPropagateIdentity st) = None"
| "msgID MOther = None"

text \<open>The second \<^verbatim>\<open>switch\<close>: the change of the storage found under the identifier. The
  storage is changed in place; the model returns the changed storage.\<close>

fun applyMsg :: "env \<Rightarrow> storage \<Rightarrow> msg \<Rightarrow> storage outcome" where
  "applyMsg env sid (MProposeSend p) =
     Done (sid\<lparr>Proposed := ps_Config p, Votes := Some fmempty\<rparr>)"
| "applyMsg env sid (MProposeVote v) =
     (case Votes sid of
        None \<Rightarrow> Panic
      | Some votes \<Rightarrow> Done (sid\<lparr>Votes := Some (fmupd (Signer v) (Signature v) votes)\<rparr>))"
| "applyMsg env sid (MUpdateSkipBlock u) =
     (case UnmarshalRegistered env (sb_Data (usb_Latest u)) of
        DecodeError \<Rightarrow> Done sid
      | OtherBody \<Rightarrow> Done sid
      | ConfigBody al \<Rightarrow> Done (sid\<lparr>Data := usb_Latest u, Latest := Some al, Proposed := None\<rparr>))"
| "applyMsg env sid (MPropagateIdentity st) = Done sid"
| "applyMsg env sid MOther = Done sid"

definition Propagate :: "env \<Rightarrow> Service \<Rightarrow> msg \<Rightarrow> Service outcome" where
  "Propagate env s m =
     (case m of
        MPropagateIdentity st \<Rightarrow>
          (let i = sb_Hash (Data st) in
           if getIdentityStorage s i \<noteq> None then Done s
           else setIdentityStorage s i (sb_HashSpare (Data st)) st)
      | _ \<Rightarrow>
          (let i = msgID m in
           if i \<noteq> None then
             (case getIdentityStorage s i of
                None \<Rightarrow> Done s
              | Some sid \<Rightarrow>
                  (case applyMsg env sid m of
                     Panic \<Rightarrow> Panic
                   | Blocked \<Rightarrow> Blocked
                   | Done sid' \<Rightarrow> Done (s\<lparr>identities := (identities s)(key i \<mapsto> sid')\<rparr>)))
           else Done s))"

section \<open>The propagation channel\<close>

text \<open>A handler that is called for a message waits at line 253 when the message names a storage
  that the server holds and whose mutex is held.\<close>

definition waits :: "(ServerIdentity \<times> string) set \<Rightarrow> ServerIdentity \<Rightarrow> Service \<Rightarrow> msg \<Rightarrow> bool" where
  "waits h r s m =
     (case msgID m of
        None \<Rightarrow> False
      | Some i \<Rightarrow> getIdentityStorage s (Some i) \<noteq> None \<and> (r, i) \<in> h)"

text \<open>
  Modelled from the spec: \<^verbatim>\<open>manage.PropagateStartAndWait\<close> is not among the sources.
  Section 4.2 of the specification: the channel delivers the event to every member of the roster,
  each member applies it (here with \<open>Propagate\<close>, the function that the service hands to
  the channel), the channel waits for the acknowledgements, no longer than its timeout, and
  returns their number. The members are served in the order of the roster. A member whose
  handler panics stops the run, which is then reported as a panic with the servers as they are
  at that moment. A member whose handler waits for a mutex does not acknowledge, and the channel
  goes on without it; when that member is the server \<open>c\<close> that makes the call, which applies
  the event itself, the call does not return. When the protocol refuses to start
  (\<open>PropagateRefused\<close>), nothing is delivered and the error is returned. The server that
  makes the call is what the model keeps of the first argument, \<^verbatim>\<open>s.Context\<close>.
\<close>

fun deliver ::
  "env \<Rightarrow> (ServerIdentity \<times> string) set \<Rightarrow> ServerIdentity \<Rightarrow> msg \<Rightarrow> ServerIdentity list \<Rightarrow>
   (ServerIdentity \<Rightarrow> Service) \<Rightarrow> (ServerIdentity \<Rightarrow> Service) \<times> nat outcome" where
  "deliver env h c m [] ss = (ss, Done 0)"
| "deliver env h c m (r # rs) ss =
     (if waits h r (ss r) m then
        (if r = c then (ss, Blocked) else deliver env h c m rs ss)
      else
        (case Propagate env (ss r) m of
           Panic \<Rightarrow> (ss, Panic)
         | Blocked \<Rightarrow> (ss, Blocked)
         | Done s' \<Rightarrow>
             (case deliver env h c m rs (ss(r := s')) of
                (ss', Panic) \<Rightarrow> (ss', Panic)
              | (ss', Blocked) \<Rightarrow> (ss', Blocked)
              | (ss', Done n) \<Rightarrow> (ss', Done (Suc n)))))"

definition PropagateStartAndWait ::
  "env \<Rightarrow> world \<Rightarrow> ServerIdentity \<Rightarrow> ServerIdentity list \<Rightarrow> msg \<Rightarrow>
   world \<times> (error + nat) outcome" where
  "PropagateStartAndWait env w c roster m =
     (case PropagateRefused env m of
        Some e \<Rightarrow> (w, Done (Inl e))
      | None \<Rightarrow>
          (case deliver env (held w) c m roster (servers w) of
             (ss, Panic) \<Rightarrow> (w\<lparr>servers := ss\<rparr>, Panic)
           | (ss, Blocked) \<Rightarrow> (w\<lparr>servers := ss\<rparr>, Blocked)
           | (ss, Done n) \<Rightarrow> (w\<lparr>servers := ss\<rparr>, Done (Inr n))))"

section \<open>The requests of the service\<close>

text \<open>
  A request is served by the server \<open>c\<close>. The Go code keeps the pointer \<^verbatim>\<open>sid\<close> to the
  storage over the propagation and reads through it afterwards; \<open>Propagate\<close> changes that
  storage in place and never replaces a registered one, so the model looks the storage up again
  in the service of \<open>c\<close>; the branch in which the second lookup finds nothing is there to
  make the definition total and is not reached. A request returns the world it leaves behind
  together with its result.
\<close>

definition AddIdentity ::
  "env \<Rightarrow> world \<Rightarrow> ServerIdentity \<Rightarrow> AddIdentityMsg \<Rightarrow>
   world \<times> (error + AddIdentityReply) outcome" where
  "AddIdentity env w c ai =
     (case CreateRoster env (ai_Roster ai) of
        Inl e \<Rightarrow> (w, Done (Inl e))
      | Inr root0 \<Rightarrow>
          (case CreateData env root0 (ai_Config ai) of
             Inl e \<Rightarrow> (w, Done (Inl e))
           | Inr (root, data) \<Rightarrow>
               (let ids = \<lparr>Latest = ai_Config ai, Proposed = None, Votes = None,
                           Root = root, Data = data\<rparr>
                in case PropagateStartAndWait env w c (sb_Roster (Root ids))
                          (MPropagateIdentity ids) of
                     (w', Panic) \<Rightarrow> (w', Panic)
                   | (w', Blocked) \<Rightarrow> (w', Blocked)
                   | (w', Done (Inl e)) \<Rightarrow> (w', Done (Inl e))
                   | (w', Done (Inr replies)) \<Rightarrow>
                       (w', Done (Inr \<lparr>air_Root = Root ids, air_Data = Data ids\<rparr>)))))"

definition ProposeSend ::
  "env \<Rightarrow> world \<Rightarrow> ServerIdentity \<Rightarrow> ProposeSendMsg \<Rightarrow> world \<times> (error + unit) outcome" where
  "ProposeSend env w c p =
     (case getIdentityStorage (servers w c) (ps_ID p) of
        None \<Rightarrow> (w, Done (Inl NotFound))
      | Some sid \<Rightarrow>
          (case PropagateStartAndWait env w c (sb_Roster (Root sid)) (MProposeSend p) of
             (w', Panic) \<Rightarrow> (w', Panic)
           | (w', Blocked) \<Rightarrow> (w', Blocked)
           | (w', Done (Inl e)) \<Rightarrow> (w', Done (Inl e))
           | (w', Done (Inr replies)) \<Rightarrow> (w', Done (Inr ()))))"

text \<open>\<^verbatim>\<open>sid.Lock()\<close> and \<^verbatim>\<open>sid.Unlock()\<close> of the storage that the server \<open>c\<close> holds
  under the identifier, and the test whether \<^verbatim>\<open>Lock\<close> would wait.\<close>

definition locked :: "world \<Rightarrow> ServerIdentity \<Rightarrow> ID \<Rightarrow> bool" where
  "locked w c i \<longleftrightarrow> (c, key i) \<in> held w"

definition Lock :: "world \<Rightarrow> ServerIdentity \<Rightarrow> ID \<Rightarrow> world" where
  "Lock w c i = w\<lparr>held := insert (c, key i) (held w)\<rparr>"

definition Unlock :: "world \<Rightarrow> ServerIdentity \<Rightarrow> ID \<Rightarrow> world" where
  "Unlock w c i = w\<lparr>held := held w - {(c, key i)}\<rparr>"

text \<open>Lines 152 to 173 of \<^verbatim>\<open>ProposeVote\<close>, the checks on the storage, in the order of the
  code. The first statement logs \<^verbatim>\<open>sid.Proposed.Device\<close>: the argument is evaluated, and a
  \<^verbatim>\<open>nil\<close> \<^verbatim>\<open>Proposed\<close> panics there, before the test of line 157.\<close>

definition len_Votes :: "storage \<Rightarrow> nat" where
  "len_Votes sid = (case Votes sid of None \<Rightarrow> 0 | Some votes \<Rightarrow> fcard (fmdom votes))"

definition ProposeVote_verify :: "env \<Rightarrow> storage \<Rightarrow> ProposeVoteMsg \<Rightarrow> (error + unit) outcome" where
  "ProposeVote_verify env sid v =
     (case Proposed sid of
        None \<Rightarrow> Panic
      | Some logged \<Rightarrow>
     (case Latest sid of
        None \<Rightarrow> Panic
      | Some latest \<Rightarrow>
     (case fmlookup (Device latest) (Signer v) of
        None \<Rightarrow> Done (Inl SignerUnknown)
      | Some owner \<Rightarrow>
     (case Proposed sid of
        None \<Rightarrow> Done (Inl NoProposal)
      | Some proposed \<Rightarrow>
     (case Config_Hash env proposed of
        None \<Rightarrow> Done (Inl HashFailed)
      | Some hash \<Rightarrow>
          if (case Votes sid of None \<Rightarrow> False | Some votes \<Rightarrow> Signer v |\<in>| fmdom votes)
          then Done (Inl DuplicateVote)
          else
            (case Signature v of
               None \<Rightarrow> Done (Inr ())
             | Some sg \<Rightarrow>
                 if VerifySchnorr env (Point owner) hash sg then Done (Inr ())
                 else Done (Inl BadSignature)))))))"

text \<open>The condition of lines 181 and 182.\<close>

definition quorum :: "storage \<Rightarrow> bool outcome" where
  "quorum sid =
     (case Latest sid of
        None \<Rightarrow> Panic
      | Some latest \<Rightarrow>
          Done (Threshold latest \<le> int (len_Votes sid) \<or>
                len_Votes sid = fcard (fmdom (Device latest))))"

text \<open>Lines 183 to 204: the new data block is requested from the ledger and propagated. The
  log of line 194 asserts that the payload of the returned block is a configuration and panics
  otherwise.\<close>

definition ProposeVote_commit ::
  "env \<Rightarrow> world \<Rightarrow> ServerIdentity \<Rightarrow> ProposeVoteMsg \<Rightarrow> storage \<Rightarrow>
   world \<times> (error + SkipBlock option) outcome" where
  "ProposeVote_commit env w c v sid =
     (case Proposed sid of
        None \<Rightarrow> (w, Panic)
      | Some proposed \<Rightarrow>
          (let w' = w\<lparr>ledger := ledger w @ [(Root sid, Data sid, proposed)]\<rparr>
           in case ProposeData env (Root sid) (Data sid) proposed of
                Inl e \<Rightarrow> (w', Done (Inl e))
              | Inr latest \<Rightarrow>
                  (case UnmarshalRegistered env (sb_Data latest) of
                     ConfigBody signed \<Rightarrow>
                       (case PropagateStartAndWait env w' c (sb_Roster (Root sid))
                               (MUpdateSkipBlock \<lparr>usb_ID = pv_ID v, usb_Latest = latest\<rparr>) of
                          (w'', Panic) \<Rightarrow> (w'', Panic)
                        | (w'', Blocked) \<Rightarrow> (w'', Blocked)
                        | (w'', Done (Inl e)) \<Rightarrow> (w'', Done (Inl e))
                        | (w'', Done (Inr replies)) \<Rightarrow>
                            (case getIdentityStorage (servers w'' c) (pv_ID v) of
                               None \<Rightarrow> (w'', Panic)
                             | Some sid' \<Rightarrow> (w'', Done (Inr (Some (Data sid'))))))
                   | DecodeError \<Rightarrow> (w', Panic)
                   | OtherBody \<Rightarrow> (w', Panic))))"

text \<open>The request. The storage is locked at line 151 and unlocked at line 174, after the
  checks have passed: a panic of the checks and each of their rejecting returns leaves the mutex
  held.\<close>

definition ProposeVote ::
  "env \<Rightarrow> world \<Rightarrow> ServerIdentity \<Rightarrow> ProposeVoteMsg \<Rightarrow>
   world \<times> (error + SkipBlock option) outcome" where
  "ProposeVote env w c v =
     (case getIdentityStorage (servers w c) (pv_ID v) of
        None \<Rightarrow> (w, Done (Inl NotFound))
      | Some sid \<Rightarrow>
          if locked w c (pv_ID v) then (w, Blocked)
          else
            (let wl = Lock w c (pv_ID v)
             in case ProposeVote_verify env sid v of
                  Panic \<Rightarrow> (wl, Panic)
                | Blocked \<Rightarrow> (wl, Blocked)
                | Done (Inl e) \<Rightarrow> (wl, Done (Inl e))
                | Done (Inr ok) \<Rightarrow>
                    (let wu = Unlock wl c (pv_ID v)
                     in case PropagateStartAndWait env wu c (sb_Roster (Root sid))
                               (MProposeVote v) of
                          (w1, Panic) \<Rightarrow> (w1, Panic)
                        | (w1, Blocked) \<Rightarrow> (w1, Blocked)
                        | (w1, Done (Inl e)) \<Rightarrow> (w1, Done (Inl e))
                        | (w1, Done (Inr replies)) \<Rightarrow>
                            (case getIdentityStorage (servers w1 c) (pv_ID v) of
                               None \<Rightarrow> (w1, Panic)
                             | Some sid1 \<Rightarrow>
                                 (case quorum sid1 of
                                    Panic \<Rightarrow> (w1, Panic)
                                  | Blocked \<Rightarrow> (w1, Blocked)
                                  | Done True \<Rightarrow> ProposeVote_commit env w1 c v sid1
                                  | Done False \<Rightarrow> (w1, Done (Inr None)))))))"

section \<open>Observations and example data\<close>

text \<open>The storage that a server holds under an identifier once \<open>Propagate\<close> has run;
  nothing when it did not return.\<close>

definition after :: "Service outcome \<Rightarrow> ID \<Rightarrow> storage option" where
  "after r i =
     (case r of Panic \<Rightarrow> None | Blocked \<Rightarrow> None | Done s \<Rightarrow> getIdentityStorage s i)"

text \<open>The names that have a vote in a storage; \<^verbatim>\<open>len(sid.Votes)\<close> is their number.\<close>

definition voted :: "storage \<Rightarrow> string fset" where
  "voted sid = (case Votes sid of None \<Rightarrow> {||} | Some votes \<Rightarrow> fmdom votes)"

text \<open>
  An identity of the devices \<open>A\<close> and \<open>B\<close> with threshold 3 on the servers 0, 1 and 2, and a
  proposal that adds the device \<open>C\<close>. A signature is taken to be valid when it equals the
  public key; the ledger answers every request with a block whose payload decodes to the
  proposal. The worlds are those that the requests of the service leave behind, one after the
  other: the identity is added, the proposal is sent, \<open>A\<close> votes.
\<close>

definition ex_cfg0 :: Config where
  "ex_cfg0 = \<lparr>Threshold = 3,
     Device = fmupd ''A'' \<lparr>Point = 1\<rparr> (fmupd ''B'' \<lparr>Point = 2\<rparr> fmempty)\<rparr>"

definition ex_cfg1 :: Config where
  "ex_cfg1 = \<lparr>Threshold = 2,
     Device = fmupd ''A'' \<lparr>Point = 1\<rparr> (fmupd ''B'' \<lparr>Point = 2\<rparr>
               (fmupd ''C'' \<lparr>Point = 3\<rparr> fmempty))\<rparr>"

definition ex_root :: SkipBlock where
  "ex_root = \<lparr>sb_Hash = Some ''rootroot'', sb_HashSpare = 0, sb_Data = [],
     sb_Roster = [0, 1, 2]\<rparr>"

definition ex_data :: SkipBlock where
  "ex_data = \<lparr>sb_Hash = Some ''identity'', sb_HashSpare = 0, sb_Data = ''cfg0'',
     sb_Roster = [0, 1, 2]\<rparr>"

definition ex_block :: SkipBlock where
  "ex_block = \<lparr>sb_Hash = Some ''block001'', sb_HashSpare = 0, sb_Data = ''cfg1'',
     sb_Roster = [0, 1, 2]\<rparr>"

definition ex_env :: env where
  "ex_env = \<lparr>Config_Hash = (\<lambda>c. Some ''digest''),
     VerifySchnorr = (\<lambda>pt h sg. sg = pt),
     UnmarshalRegistered = (\<lambda>b. if b = ''cfg1'' then ConfigBody ex_cfg1 else DecodeError),
     CreateRoster = (\<lambda>r. Inr \<lparr>sb_Hash = Some ''rootroot'', sb_HashSpare = 0, sb_Data = [],
                               sb_Roster = r\<rparr>),
     CreateData = (\<lambda>root c. Inr (root, \<lparr>sb_Hash = Some ''identity'', sb_HashSpare = 0,
                                          sb_Data = ''cfg0'', sb_Roster = sb_Roster root\<rparr>)),
     ProposeData = (\<lambda>root data c. Inr ex_block),
     PropagateRefused = (\<lambda>m. None)\<rparr>"

definition ex_world0 :: world where
  "ex_world0 = \<lparr>servers = (\<lambda>r. \<lparr>identities = Map.empty\<rparr>), ledger = [], held = {}\<rparr>"

definition ex_add :: AddIdentityMsg where
  "ex_add = \<lparr>ai_Config = Some ex_cfg0, ai_Roster = [0, 1, 2]\<rparr>"

definition ex_world1 :: world where
  "ex_world1 = fst (AddIdentity ex_env ex_world0 0 ex_add)"

definition ex_send :: ProposeSendMsg where
  "ex_send = \<lparr>ps_ID = Some ''identity'', ps_Config = Some ex_cfg1\<rparr>"

definition ex_world2 :: world where
  "ex_world2 = fst (ProposeSend ex_env ex_world1 0 ex_send)"

definition ex_voteA :: ProposeVoteMsg where
  "ex_voteA = \<lparr>pv_ID = Some ''identity'', Signer = ''A'', Signature = Some 1\<rparr>"

definition ex_world3 :: world where
  "ex_world3 = fst (ProposeVote ex_env ex_world2 0 ex_voteA)"

text \<open>What every server holds in \<open>ex_world3\<close>.\<close>

definition ex_storage3 :: storage where
  "ex_storage3 = \<lparr>Latest = Some ex_cfg0, Proposed = Some ex_cfg1,
     Votes = Some (fmupd ''A'' (Some 1) fmempty), Root = ex_root, Data = ex_data\<rparr>"

definition ex_usb :: UpdateSkipBlockMsg where
  "ex_usb = \<lparr>usb_ID = Some ''identity'', usb_Latest = ex_block\<rparr>"

definition ex_send0 :: ProposeSendMsg where
  "ex_send0 = \<lparr>ps_ID = Some ''identity'', ps_Config = Some ex_cfg0\<rparr>"

definition ex_voteA_again :: ProposeVoteMsg where
  "ex_voteA_again = \<lparr>pv_ID = Some ''identity'', Signer = ''A'', Signature = None\<rparr>"

text \<open>Two storages of the same round: they differ at most in the votes.\<close>

definition same_round :: "storage \<Rightarrow> storage \<Rightarrow> bool" where
  "same_round sid sid' \<longleftrightarrow>
     Latest sid' = Latest sid \<and> Proposed sid' = Proposed sid \<and>
     Root sid' = Root sid \<and> Data sid' = Data sid"

text \<open>The storage of a member of the roster once the committed block has been applied to
  what the member held: lines 275 to 277 assign the data block, \<open>Latest\<close> and
  \<open>Proposed\<close>.\<close>

definition installed :: "Config \<Rightarrow> SkipBlock \<Rightarrow> storage \<Rightarrow> storage \<Rightarrow> bool" where
  "installed cfg block sid sid' \<longleftrightarrow>
     Latest sid' = Some cfg \<and> Proposed sid' = None \<and> Data sid' = block \<and>
     Votes sid' = Votes sid \<and> Root sid' = Root sid"





text \<open>Further requests for the examples: \<open>B\<close> votes with a signature and without one, a name
  that is no device votes, and the identity is added a second time with another configuration
  while the ledger answers with the same blocks.\<close>

definition ex_voteB :: ProposeVoteMsg where
  "ex_voteB = \<lparr>pv_ID = Some ''identity'', Signer = ''B'', Signature = Some 2\<rparr>"

definition ex_voteB_null :: ProposeVoteMsg where
  "ex_voteB_null = \<lparr>pv_ID = Some ''identity'', Signer = ''B'', Signature = None\<rparr>"

definition ex_voteZ :: ProposeVoteMsg where
  "ex_voteZ = \<lparr>pv_ID = Some ''identity'', Signer = ''Z'', Signature = None\<rparr>"

definition ex_add1 :: AddIdentityMsg where
  "ex_add1 = \<lparr>ai_Config = Some ex_cfg1, ai_Roster = [0, 1, 2]\<rparr>"

text \<open>What every server holds in \<open>ex_world1\<close>, and the worlds in which the vote of \<open>B\<close>
  has been propagated from \<open>ex_world3\<close>, with its signature and without.\<close>

definition ex_storage1 :: storage where
  "ex_storage1 = \<lparr>Latest = Some ex_cfg0, Proposed = None, Votes = None,
     Root = ex_root, Data = ex_data\<rparr>"

definition ex_storage4 :: storage where
  "ex_storage4 = \<lparr>Latest = Some ex_cfg0, Proposed = Some ex_cfg1,
     Votes = Some (fmupd ''B'' (Some 2) (fmupd ''A'' (Some 1) fmempty)),
     Root = ex_root, Data = ex_data\<rparr>"

definition ex_world4 :: world where
  "ex_world4 = fst (PropagateStartAndWait ex_env ex_world3 0 [0, 1, 2] (MProposeVote ex_voteB))"

definition ex_world4_null :: world where
  "ex_world4_null =
     fst (PropagateStartAndWait ex_env ex_world3 0 [0, 1, 2] (MProposeVote ex_voteB_null))"

text \<open>Three more worlds. In \<open>ex_world5\<close> the device \<open>A\<close> has sent its vote to server 0 a
  second time. In \<open>ex_world6\<close> the block that the ledger returns after the vote of \<open>B\<close> has
  been propagated from server 0; \<open>ex_storage6\<close> is what every server then holds. In
  \<open>ex_worldZ\<close> the proposal has been sent and a vote event of the name \<open>Z\<close>, which is no
  device, has reached the handlers of the three servers: the handler records every vote it is
  handed (lines 260 to 262).\<close>

definition ex_world5 :: world where
  "ex_world5 = fst (ProposeVote ex_env ex_world3 0 ex_voteA)"

definition ex_world6 :: world where
  "ex_world6 =
     fst (PropagateStartAndWait ex_env
            (ex_world4\<lparr>ledger := ledger ex_world4 @ [(ex_root, ex_data, ex_cfg1)]\<rparr>) 0 [0, 1, 2]
            (MUpdateSkipBlock ex_usb))"

definition ex_storage6 :: storage where
  "ex_storage6 = \<lparr>Latest = Some ex_cfg1, Proposed = None,
     Votes = Some (fmupd ''B'' (Some 2) (fmupd ''A'' (Some 1) fmempty)),
     Root = ex_root, Data = ex_block\<rparr>"

definition ex_worldZ :: world where
  "ex_worldZ = fst (PropagateStartAndWait ex_env ex_world2 1 [0, 1, 2] (MProposeVote ex_voteZ))"

section \<open>Basic facts\<close>

lemmas ex_defs = ex_world3_def ex_world2_def ex_world1_def ex_world0_def ex_add_def ex_send_def
  ex_voteA_def ex_usb_def ex_env_def ex_cfg0_def ex_cfg1_def ex_block_def ex_root_def
  ex_data_def ex_storage3_def ex_send0_def ex_voteA_again_def ex_voteB_def ex_voteB_null_def
  ex_voteZ_def ex_add1_def ex_storage1_def ex_world4_def ex_storage4_def ex_world4_null_def

lemmas run_defs = AddIdentity_def ProposeSend_def ProposeVote_def ProposeVote_verify_def
  ProposeVote_commit_def quorum_def len_Votes_def PropagateStartAndWait_def Propagate_def
  getIdentityStorage_def setIdentityStorage_def after_def fcard_finsert_if fcard_fempty
  waits_def locked_def Lock_def Unlock_def cap_def

lemma key_simps [simp]: "key None = []" "key (Some b) = b"
  by (simp_all add: key_def)

lemma fmupd_same: "fmlookup m k = Some x \<Longrightarrow> fmupd k x m = m"
  by (rule fmap_ext) auto

lemma fmupd_neq_fmempty: "fmupd k x m \<noteq> fmempty"
proof
  assume "fmupd k x m = fmempty"
  then have "fmlookup (fmupd k x m) k = fmlookup fmempty k" by simp
  then show False by simp
qed

lemma getIdentityStorage_update:
  "getIdentityStorage (s\<lparr>identities := (identities s)(i \<mapsto> sid)\<rparr>) (Some j) =
     (if j = i then Some sid else getIdentityStorage s (Some j))"
  by (simp add: getIdentityStorage_def)

lemma ex_world3_holds:
  "getIdentityStorage (servers ex_world3 r) (Some ''identity'') =
     (if r = 0 \<or> r = 1 \<or> r = 2 then Some ex_storage3 else None)"
  by (simp add: ex_defs run_defs)

lemma ex_world1_holds:
  "getIdentityStorage (servers ex_world1 r) (Some ''identity'') =
     (if r = 0 \<or> r = 1 \<or> r = 2 then Some ex_storage1 else None)"
  by (simp add: ex_defs run_defs)

lemma ex_world4_holds:
  "getIdentityStorage (servers ex_world4 r) (Some ''identity'') =
     (if r = 0 \<or> r = 1 \<or> r = 2 then Some ex_storage4 else None)"
  by (simp add: ex_defs run_defs ex_storage4_def)

lemma ex_world1_held: "held ex_world1 = {}"
  by (simp add: ex_defs run_defs)

lemma ex_world3_held: "held ex_world3 = {}"
  by (simp add: ex_defs run_defs)

lemma ex_world3_ledger: "ledger ex_world3 = []"
  by (simp add: ex_defs run_defs)

lemma ex_world4_held: "held ex_world4 = {}"
  by (simp add: ex_defs run_defs)

lemma ex_world6_holds:
  "getIdentityStorage (servers ex_world6 r) (Some ''identity'') =
     (if r = 0 \<or> r = 1 \<or> r = 2 then Some ex_storage6 else None)"
  by (simp add: ex_defs run_defs ex_world6_def ex_storage6_def)

section \<open>The replica's handler\<close>

text \<open>A message for a known identifier changes the storage under it and nothing else; for an
  unknown identifier it changes nothing.\<close>

lemma Propagate_known:
  assumes "msgID m = Some i" and "getIdentityStorage s (Some i) = Some sid"
  shows "Propagate env s m =
           (case applyMsg env sid m of
              Panic \<Rightarrow> Panic
            | Blocked \<Rightarrow> Blocked
            | Done sid' \<Rightarrow> Done (s\<lparr>identities := (identities s)(i \<mapsto> sid')\<rparr>))"
  using assms by (cases m) (simp_all add: Propagate_def split: outcome.splits)

lemma Propagate_unknown:
  assumes "msgID m = Some i" and "getIdentityStorage s (Some i) = None"
  shows "Propagate env s m = Done s"
  using assms by (cases m) (simp_all add: Propagate_def)

text \<open>The handler removes no storage from the registry, whatever the message, and so does a
  delivery to any roster: the storage that a request has looked up is still registered when
  the request looks it up again.\<close>

lemma Propagate_keeps_registered:
  assumes "Propagate env s m = Done s'" and "identities s k \<noteq> None"
  shows "identities s' k \<noteq> None"
proof (cases "\<exists>st. m = MPropagateIdentity st")
  case True
  with assms show ?thesis
    by (auto simp: Propagate_def setIdentityStorage_def Let_def split: if_splits)
next
  case False
  show ?thesis
  proof (cases "msgID m")
    case None
    with False assms show ?thesis by (cases m) (auto simp: Propagate_def)
  next
    case (Some i)
    show ?thesis
    proof (cases "getIdentityStorage s (Some i)")
      case None
      with Some assms show ?thesis by (simp add: Propagate_unknown)
    next
      case held: (Some sid)
      with Some assms show ?thesis
        by (auto simp: Propagate_known [where i = i and sid = sid] split: outcome.splits)
    qed
  qed
qed

text \<open>The steps of a delivery: the member is passed over, or it is the caller and the call
  hangs, or its handler does not return, or its handler returns and the delivery goes on.\<close>

lemma deliver_Cons_cases [consumes 1, case_names skip hang stop step]:
  assumes "deliver env h c m (a # roster) ss = (ss', x)"
  obtains "waits h a (ss a) m" and "a \<noteq> c" and "deliver env h c m roster ss = (ss', x)"
  | "waits h a (ss a) m" and "a = c" and "ss' = ss" and "x = Blocked"
  | "\<not> waits h a (ss a) m" and "\<forall>s'. Propagate env (ss a) m \<noteq> Done s'"
      and "ss' = ss" and "\<forall>n. x \<noteq> Done n"
  | s' x' where "\<not> waits h a (ss a) m" and "Propagate env (ss a) m = Done s'"
      and "deliver env h c m roster (ss(a := s')) = (ss', x')"
      and "x = (case x' of Panic \<Rightarrow> Panic | Blocked \<Rightarrow> Blocked | Done n \<Rightarrow> Done (Suc n))"
proof (cases "waits h a (ss a) m")
  case wait: True
  show ?thesis
  proof (cases "a = c")
    case True
    from assms wait True have "ss' = ss" and "x = Blocked" by simp_all
    with wait True show ?thesis by (rule that(2))
  next
    case False
    from assms wait False have "deliver env h c m roster ss = (ss', x)" by simp
    with wait False show ?thesis by (rule that(1))
  qed
next
  case free: False
  show ?thesis
  proof (cases "Propagate env (ss a) m")
    case Panic
    with assms free have "ss' = ss" and "x = Panic" by simp_all
    with free Panic show ?thesis by (intro that(3)) simp_all
  next
    case Blocked
    with assms free have "ss' = ss" and "x = Blocked" by simp_all
    with free Blocked show ?thesis by (intro that(3)) simp_all
  next
    case (Done s')
    obtain ss'' x' where rest: "deliver env h c m roster (ss(a := s')) = (ss'', x')"
      by (cases "deliver env h c m roster (ss(a := s'))")
    from assms free Done rest have "ss'' = ss'"
      and "x = (case x' of Panic \<Rightarrow> Panic | Blocked \<Rightarrow> Blocked | Done n \<Rightarrow> Done (Suc n))"
      by (simp_all split: outcome.splits)
    with free Done rest show ?thesis by (intro that(4) [of s' x']) simp_all
  qed
qed

lemma deliver_keeps_registered:
  assumes "deliver env h c m roster ss = (ss', x)" and "identities (ss r) k \<noteq> None"
  shows "identities (ss' r) k \<noteq> None"
  using assms
proof (induction roster arbitrary: ss x)
  case Nil
  then show ?case by simp
next
  case (Cons a roster)
  from Cons.prems(1) show ?case
  proof (cases rule: deliver_Cons_cases)
    case skip
    from skip(3) Cons.prems(2) show ?thesis by (rule Cons.IH)
  next
    case hang
    with Cons.prems(2) show ?thesis by simp
  next
    case stop
    with Cons.prems(2) show ?thesis by simp
  next
    case (step s' x')
    have "identities ((ss(a := s')) r) k \<noteq> None"
    proof (cases "a = r")
      case True
      with Propagate_keeps_registered [OF step(2)] Cons.prems(2) show ?thesis by simp
    next
      case False
      with Cons.prems(2) show ?thesis by simp
    qed
    with step(3) show ?thesis by (rule Cons.IH)
  qed
qed

text \<open>
  Claim C2, as amended. When a server that holds the identity applies a committed block
  (\<^verbatim>\<open>UpdateSkipBlock\<close>) whose payload decodes to a configuration, \<open>Latest\<close> becomes that
  configuration, \<open>Proposed\<close> becomes empty and the data block becomes the new block. The
  votes are not touched (the code clears them at the next proposal), and neither are the root
  block and the other identities.
\<close>

theorem InstallCommitted_keeps_votes:
  assumes "usb_ID u = Some i" and "getIdentityStorage s (usb_ID u) = Some sid"
    and "UnmarshalRegistered env (sb_Data (usb_Latest u)) = ConfigBody al"
  shows "\<exists>s' sid'. Propagate env s (MUpdateSkipBlock u) = Done s' \<and>
           getIdentityStorage s' (usb_ID u) = Some sid' \<and>
           Latest sid' = Some al \<and> Proposed sid' = None \<and> Data sid' = usb_Latest u \<and>
           Votes sid' = Votes sid \<and> Root sid' = Root sid \<and>
           (\<forall>j. j \<noteq> i \<longrightarrow> getIdentityStorage s' (Some j) = getIdentityStorage s (Some j))"
  using assms
  by (simp add: Propagate_known [where i = i and sid = sid] getIdentityStorage_update)

theorem InstallCommitted_keeps_votes_witness:
  "usb_ID ex_usb = Some ''identity'' \<and>
   getIdentityStorage (servers ex_world3 1) (usb_ID ex_usb) = Some ex_storage3 \<and>
   UnmarshalRegistered ex_env (sb_Data (usb_Latest ex_usb)) = ConfigBody ex_cfg1 \<and>
   (\<exists>s' sid'. Propagate ex_env (servers ex_world3 1) (MUpdateSkipBlock ex_usb) = Done s' \<and>
      getIdentityStorage s' (usb_ID ex_usb) = Some sid' \<and>
      Latest sid' = Some ex_cfg1 \<and> Proposed sid' = None \<and> Data sid' = usb_Latest ex_usb \<and>
      Votes sid' = Votes ex_storage3 \<and> Root sid' = Root ex_storage3 \<and>
      (\<forall>j. j \<noteq> ''identity'' \<longrightarrow>
         getIdentityStorage s' (Some j) = getIdentityStorage (servers ex_world3 1) (Some j)))"
proof -
  have h1: "usb_ID ex_usb = Some ''identity''"
    by (simp add: ex_usb_def)
  have h2: "getIdentityStorage (servers ex_world3 1) (usb_ID ex_usb) = Some ex_storage3"
    by (simp add: ex_usb_def ex_world3_holds)
  have h3: "UnmarshalRegistered ex_env (sb_Data (usb_Latest ex_usb)) = ConfigBody ex_cfg1"
    by (simp add: ex_usb_def ex_env_def ex_block_def)
  from InstallCommitted_keeps_votes [OF h1 h2 h3] h1 h2 h3 show ?thesis
    by blast
qed

text \<open>The claim C2 as it is written has the votes emptied. In the world where \<open>A\<close> has
  voted, server 1 applies the committed block: the new configuration is installed and the vote
  of \<open>A\<close> is still there.\<close>

theorem InstallCommitted_votes_survive:
  "map_option Latest (after (Propagate ex_env (servers ex_world3 1) (MUpdateSkipBlock ex_usb))
                        (Some ''identity'')) = Some (Some ex_cfg1) \<and>
   map_option Votes (after (Propagate ex_env (servers ex_world3 1) (MUpdateSkipBlock ex_usb))
                       (Some ''identity'')) = Some (Some (fmupd ''A'' (Some 1) fmempty)) \<and>
   fmupd ''A'' (Some (1::nat)) fmempty \<noteq> fmempty"
  by (simp add: ex_defs run_defs fmupd_neq_fmempty)

text \<open>
  Claim C8. When a server that holds the identity applies a new proposal
  (\<^verbatim>\<open>ProposeSend\<close>), \<open>Proposed\<close> becomes the candidate of the message and the votes
  become the empty map, whatever was proposed and voted before; the rest of the storage and the
  other identities stay.
\<close>

theorem SetProposed_overwrites_and_clears:
  assumes "ps_ID p = Some i" and "getIdentityStorage s (ps_ID p) = Some sid"
  shows "\<exists>s' sid'. Propagate env s (MProposeSend p) = Done s' \<and>
           getIdentityStorage s' (ps_ID p) = Some sid' \<and>
           Proposed sid' = ps_Config p \<and> Votes sid' = Some fmempty \<and> len_Votes sid' = 0 \<and>
           Latest sid' = Latest sid \<and> Root sid' = Root sid \<and> Data sid' = Data sid \<and>
           (\<forall>j. j \<noteq> i \<longrightarrow> getIdentityStorage s' (Some j) = getIdentityStorage s (Some j))"
  using assms
  by (simp add: Propagate_known [where i = i and sid = sid] getIdentityStorage_update
      len_Votes_def)

theorem SetProposed_overwrites_and_clears_witness:
  "ps_ID ex_send0 = Some ''identity'' \<and>
   getIdentityStorage (servers ex_world3 1) (ps_ID ex_send0) = Some ex_storage3 \<and>
   Proposed ex_storage3 = Some ex_cfg1 \<and> len_Votes ex_storage3 = 1 \<and>
   (\<exists>s' sid'. Propagate ex_env (servers ex_world3 1) (MProposeSend ex_send0) = Done s' \<and>
      getIdentityStorage s' (ps_ID ex_send0) = Some sid' \<and>
      Proposed sid' = Some ex_cfg0 \<and> Votes sid' = Some fmempty \<and> len_Votes sid' = 0)"
proof -
  have h1: "ps_ID ex_send0 = Some ''identity''"
    by (simp add: ex_send0_def)
  have h2: "getIdentityStorage (servers ex_world3 1) (ps_ID ex_send0) = Some ex_storage3"
    by (simp add: ex_send0_def ex_world3_holds)
  have h3: "Proposed ex_storage3 = Some ex_cfg1 \<and> len_Votes ex_storage3 = 1"
    by (simp add: ex_storage3_def len_Votes_def fcard_finsert_if fcard_fempty)
  have h4: "ps_Config ex_send0 = Some ex_cfg0"
    by (simp add: ex_send0_def)
  from SetProposed_overwrites_and_clears [OF h1 h2, of ex_env] h1 h2 h3 h4 show ?thesis
    by auto
qed

text \<open>A committed block is applied without panic, and a second time without effect.\<close>

lemma applyMsg_usb_Done: "\<exists>sid'. applyMsg env sid (MUpdateSkipBlock u) = Done sid'"
  by (simp split: decoded.splits)

lemma applyMsg_usb_twice:
  "applyMsg env sid (MUpdateSkipBlock u) = Done sid' \<Longrightarrow>
   applyMsg env sid' (MUpdateSkipBlock u) = Done sid'"
  by (auto split: decoded.splits)

text \<open>
  Claim C9. Applying a committed block (\<^verbatim>\<open>UpdateSkipBlock\<close>) never panics, and applying
  the same block a second time leaves the service exactly as the first application left it.
\<close>

theorem InstallCommitted_idempotent:
  "\<exists>s'. Propagate env s (MUpdateSkipBlock u) = Done s' \<and>
         Propagate env s' (MUpdateSkipBlock u) = Done s'"
proof (cases "usb_ID u")
  case None
  then show ?thesis by (simp add: Propagate_def)
next
  case (Some i)
  note id = this
  show ?thesis
  proof (cases "getIdentityStorage s (Some i)")
    case None
    with id show ?thesis by (simp add: Propagate_unknown)
  next
    case (Some sid)
    obtain sid' where once: "applyMsg env sid (MUpdateSkipBlock u) = Done sid'"
      using applyMsg_usb_Done by blast
    let ?s' = "s\<lparr>identities := (identities s)(i \<mapsto> sid')\<rparr>"
    have first: "Propagate env s (MUpdateSkipBlock u) = Done ?s'"
      using id Some once by (simp add: Propagate_known [where i = i and sid = sid])
    have "getIdentityStorage ?s' (Some i) = Some sid'"
      by (simp add: getIdentityStorage_update)
    then have "Propagate env ?s' (MUpdateSkipBlock u) = Done ?s'"
      using id applyMsg_usb_twice [OF once]
      by (simp add: Propagate_known [where i = i and sid = sid'])
    with first show ?thesis by blast
  qed
qed

text \<open>
  Claim C10. When a server applies a propagated vote (\<^verbatim>\<open>ProposeVote\<close>) of a signer that
  already has an entry in the votes, the handler returns without panic or error, the entry of the
  signer is the signature of the message, whatever was stored before, the entries of the other
  signers stay, and the number of votes is the same. When the stored entry already is the
  signature of the message, the whole service is unchanged.
\<close>

theorem RecordVote_last_writer_wins:
  assumes "pv_ID v = Some i" and "getIdentityStorage s (pv_ID v) = Some sid"
    and "Votes sid = Some votes" and "Signer v |\<in>| fmdom votes"
  shows "\<exists>s' sid' votes'. Propagate env s (MProposeVote v) = Done s' \<and>
           getIdentityStorage s' (pv_ID v) = Some sid' \<and> Votes sid' = Some votes' \<and>
           fmlookup votes' (Signer v) = Some (Signature v) \<and>
           (\<forall>name. name \<noteq> Signer v \<longrightarrow> fmlookup votes' name = fmlookup votes name) \<and>
           len_Votes sid' = len_Votes sid \<and>
           (fmlookup votes (Signer v) = Some (Signature v) \<longrightarrow> s' = s)"
proof -
  let ?sid' = "sid\<lparr>Votes := Some (fmupd (Signer v) (Signature v) votes)\<rparr>"
  let ?s' = "s\<lparr>identities := (identities s)(i \<mapsto> ?sid')\<rparr>"
  have run: "Propagate env s (MProposeVote v) = Done ?s'"
    using assms by (simp add: Propagate_known [where i = i and sid = sid])
  have same: "?s' = s" if "fmlookup votes (Signer v) = Some (Signature v)"
  proof -
    have "?sid' = sid" using that assms(3) by (simp add: fmupd_same)
    moreover have "identities s i = Some sid"
      using assms(1,2) by (simp add: getIdentityStorage_def)
    ultimately show ?thesis by (simp add: map_upd_triv)
  qed
  have "len_Votes ?sid' = len_Votes sid"
    using assms(3,4) by (simp add: len_Votes_def finsert_absorb)
  with run same assms(1) show ?thesis
    by (simp add: getIdentityStorage_update)
qed

theorem RecordVote_last_writer_wins_witness:
  "pv_ID ex_voteA_again = Some ''identity'' \<and>
   getIdentityStorage (servers ex_world3 1) (pv_ID ex_voteA_again) = Some ex_storage3 \<and>
   Votes ex_storage3 = Some (fmupd ''A'' (Some 1) fmempty) \<and>
   Signer ex_voteA_again |\<in>| fmdom (fmupd ''A'' (Some (1::nat)) fmempty) \<and>
   fmlookup (fmupd ''A'' (Some (1::nat)) fmempty) (Signer ex_voteA) = Some (Signature ex_voteA) \<and>
   (\<exists>s' sid' votes'. Propagate ex_env (servers ex_world3 1) (MProposeVote ex_voteA_again) = Done s' \<and>
      getIdentityStorage s' (pv_ID ex_voteA_again) = Some sid' \<and> Votes sid' = Some votes' \<and>
      fmlookup votes' ''A'' = Some None \<and> len_Votes sid' = len_Votes ex_storage3) \<and>
   Propagate ex_env (servers ex_world3 1) (MProposeVote ex_voteA) = Done (servers ex_world3 1)"
proof -
  have h1: "pv_ID ex_voteA_again = Some ''identity''"
    by (simp add: ex_voteA_again_def)
  have h2: "getIdentityStorage (servers ex_world3 1) (pv_ID ex_voteA_again) = Some ex_storage3"
    by (simp add: ex_voteA_again_def ex_world3_holds)
  have h3: "Votes ex_storage3 = Some (fmupd ''A'' (Some 1) fmempty)"
    by (simp add: ex_storage3_def)
  have h4: "Signer ex_voteA_again |\<in>| fmdom (fmupd ''A'' (Some (1::nat)) fmempty)"
    by (simp add: ex_voteA_again_def)
  have h5: "Signer ex_voteA_again = ''A'' \<and> Signature ex_voteA_again = None"
    by (simp add: ex_voteA_again_def)
  have k1: "pv_ID ex_voteA = Some ''identity''"
    by (simp add: ex_voteA_def)
  have k2: "getIdentityStorage (servers ex_world3 1) (pv_ID ex_voteA) = Some ex_storage3"
    by (simp add: ex_voteA_def ex_world3_holds)
  have k4: "Signer ex_voteA |\<in>| fmdom (fmupd ''A'' (Some (1::nat)) fmempty)"
    by (simp add: ex_voteA_def)
  have k5: "fmlookup (fmupd ''A'' (Some (1::nat)) fmempty) (Signer ex_voteA) =
              Some (Signature ex_voteA)"
    by (simp add: ex_voteA_def)
  from RecordVote_last_writer_wins [OF k1 k2 h3 k4, of ex_env] k5
  have same: "Propagate ex_env (servers ex_world3 1) (MProposeVote ex_voteA) =
                Done (servers ex_world3 1)"
    by auto
  from RecordVote_last_writer_wins [OF h1 h2 h3 h4, of ex_env] h1 h2 h3 h4 h5 k5 same
  show ?thesis
    by auto
qed

section \<open>Delivery of a message\<close>

lemma len_Votes_voted: "len_Votes sid = fcard (voted sid)"
  by (simp add: len_Votes_def voted_def split: option.splits)

lemma PropagateStartAndWait_ledger:
  "ledger (fst (PropagateStartAndWait env w c roster m)) = ledger w"
  by (simp add: PropagateStartAndWait_def split: option.splits prod.splits outcome.splits)

lemma PropagateStartAndWait_held:
  "held (fst (PropagateStartAndWait env w c roster m)) = held w"
  by (simp add: PropagateStartAndWait_def split: option.splits prod.splits outcome.splits)

text \<open>A property of a registered storage that every application of the message keeps is kept
  by the handler and by a delivery.\<close>

lemma Propagate_preserves:
  assumes keep: "\<And>a a'. P a \<Longrightarrow> applyMsg env a m = Done a' \<Longrightarrow> P a'"
    and run: "Propagate env s m = Done s'"
    and reg: "identities s k = Some sid" and P: "P sid"
  shows "\<exists>sid'. identities s' k = Some sid' \<and> P sid'"
proof (cases "\<exists>st. m = MPropagateIdentity st")
  case True
  with run reg P show ?thesis
    by (auto simp: Propagate_def setIdentityStorage_def getIdentityStorage_def Let_def
        split: if_splits)
next
  case False
  show ?thesis
  proof (cases "msgID m")
    case None
    with False run reg P show ?thesis by (cases m) (auto simp: Propagate_def)
  next
    case (Some i)
    show ?thesis
    proof (cases "getIdentityStorage s (Some i)")
      case None
      with Some run reg P show ?thesis by (simp add: Propagate_unknown)
    next
      case known: (Some sidi)
      with Some run obtain sidi' where
        a: "applyMsg env sidi m = Done sidi'" and
        s': "s' = s\<lparr>identities := (identities s)(i \<mapsto> sidi')\<rparr>"
        by (auto simp: Propagate_known [where i = i and sid = sidi] split: outcome.splits)
      show ?thesis
      proof (cases "k = i")
        case True
        with known reg have "sidi = sid" by (simp add: getIdentityStorage_def)
        with keep [OF P] a s' True show ?thesis by simp
      next
        case False
        with s' reg P show ?thesis by simp
      qed
    qed
  qed
qed

lemma deliver_preserves:
  assumes keep: "\<And>a a'. P a \<Longrightarrow> applyMsg env a m = Done a' \<Longrightarrow> P a'"
    and "deliver env h c m roster ss = (ss', x)"
    and "identities (ss r) k = Some sid" and "P sid"
  shows "\<exists>sid'. identities (ss' r) k = Some sid' \<and> P sid'"
  using assms(2-)
proof (induction roster arbitrary: ss x sid)
  case Nil
  then show ?case by auto
next
  case (Cons a roster)
  from Cons.prems(1) show ?case
  proof (cases rule: deliver_Cons_cases)
    case skip
    from skip(3) Cons.prems(2,3) show ?thesis by (rule Cons.IH)
  next
    case hang
    with Cons.prems(2,3) show ?thesis by simp
  next
    case stop
    with Cons.prems(2,3) show ?thesis by simp
  next
    case (step s' x')
    have "\<exists>sidm. identities ((ss(a := s')) r) k = Some sidm \<and> P sidm"
    proof (cases "a = r")
      case True
      with Propagate_preserves [of P env m, OF keep step(2)] Cons.prems(2,3) show ?thesis
        by simp
    next
      case False
      with Cons.prems(2,3) show ?thesis by simp
    qed
    then obtain sidm where "identities ((ss(a := s')) r) k = Some sidm" and "P sidm"
      by blast
    with step(3) show ?thesis by (rule Cons.IH)
  qed
qed

text \<open>When a delivery returns, a member of the roster that holds the storage has applied the
  message, unless it was passed over because the mutex of the storage was held; the caller is
  never passed over.\<close>

lemma deliver_applies:
  assumes keep: "\<And>a a'. P a \<Longrightarrow> applyMsg env a m = Done a' \<Longrightarrow> P a'"
    and first: "\<And>a'. applyMsg env sid m = Done a' \<Longrightarrow> P a'"
    and "deliver env h c m roster ss = (ss', Done n)"
    and "msgID m = Some i" and "identities (ss r) i = Some sid"
    and "r \<in> set roster" and "(r, i) \<notin> h \<or> r = c"
  shows "\<exists>sid'. identities (ss' r) i = Some sid' \<and> P sid'"
  using assms(3-)
proof (induction roster arbitrary: ss n)
  case Nil
  then show ?case by simp
next
  case (Cons a roster)
  note id = Cons.prems(2) and reg = Cons.prems(3) and free = Cons.prems(5)
  from Cons.prems(1) show ?case
  proof (cases rule: deliver_Cons_cases)
    case skip
    have "a \<noteq> r"
    proof
      assume "a = r"
      with skip(1,2) id free show False by (auto simp: waits_def)
    qed
    with Cons.prems(4) have "r \<in> set roster" by simp
    from Cons.IH [OF skip(3) id reg this free] show ?thesis .
  next
    case hang
    then show ?thesis by simp
  next
    case stop
    then show ?thesis by simp
  next
    case (step s' x')
    from step(4) obtain n' where x': "x' = Done n'"
      by (cases x') simp_all
    show ?thesis
    proof (cases "a = r")
      case True
      from reg have known: "getIdentityStorage (ss r) (Some i) = Some sid"
        by (simp add: getIdentityStorage_def)
      from step(2) True id known obtain a' where
        a: "applyMsg env sid m = Done a'" and
        s': "s' = (ss r)\<lparr>identities := (identities (ss r))(i \<mapsto> a')\<rparr>"
        by (auto simp: Propagate_known [where i = i and sid = sid] split: outcome.splits)
      from s' True have "identities ((ss(a := s')) r) i = Some a'" by simp
      from deliver_preserves [of P env m, OF keep step(3) this first [OF a]]
      show ?thesis .
    next
      case False
      with reg Cons.prems(4) have "identities ((ss(a := s')) r) i = Some sid"
        and "r \<in> set roster"
        by simp_all
      from Cons.IH [OF step(3) [unfolded x'] id this free] show ?thesis .
    qed
  qed
qed

text \<open>A vote changes nothing but the votes.\<close>

lemma applyMsg_vote_frame:
  "applyMsg env sid (MProposeVote v) = Done sid' \<Longrightarrow> same_round sid sid'"
  by (auto simp: same_round_def split: option.splits)

lemma same_round_trans: "same_round a b \<Longrightarrow> same_round b c \<Longrightarrow> same_round a c"
  by (simp add: same_round_def)

lemma same_round_refl: "same_round a a"
  by (simp add: same_round_def)

lemma deliver_vote_frame:
  assumes "deliver env h c (MProposeVote v) roster ss = (ss', x)"
    and "identities (ss r) k = Some sid"
  shows "\<exists>sid'. identities (ss' r) k = Some sid' \<and> same_round sid sid'"
proof (rule deliver_preserves [of "same_round sid", OF _ assms])
  show "same_round sid a'"
    if "same_round sid a" and "applyMsg env a (MProposeVote v) = Done a'" for a a'
    using that by (blast intro: same_round_trans applyMsg_vote_frame)
  show "same_round sid sid" by (rule same_round_refl)
qed

text \<open>The votes of the server that serves the request, once its own handler has run.\<close>

lemma deliver_vote_recorded:
  assumes "deliver env h c (MProposeVote v) roster ss = (ss', Done n)" and "pv_ID v = Some i"
    and "identities (ss r) i = Some sid" and "r \<in> set roster" and "(r, i) \<notin> h \<or> r = c"
  shows "\<exists>votes sid'. Votes sid = Some votes \<and> identities (ss' r) i = Some sid' \<and>
           Votes sid' = Some (fmupd (Signer v) (Signature v) votes)"
proof -
  let ?P = "\<lambda>a. \<exists>votes. Votes sid = Some votes \<and>
              Votes a = Some (fmupd (Signer v) (Signature v) votes)"
  have "\<exists>sid'. identities (ss' r) i = Some sid' \<and> ?P sid'"
  proof (rule deliver_applies [of ?P, OF _ _ assms(1) _ assms(3-5)])
    show "?P a'" if "?P a" and "applyMsg env a (MProposeVote v) = Done a'" for a a'
      using that by (auto split: option.splits)
    show "?P a'" if "applyMsg env sid (MProposeVote v) = Done a'" for a'
      using that by (auto split: option.splits)
    show "msgID (MProposeVote v) = Some i" using assms(2) by simp
  qed
  then show ?thesis by blast
qed

text \<open>The committed block on a member of the roster, once its handler has run.\<close>

lemma deliver_block_installed:
  assumes "deliver env h c (MUpdateSkipBlock u) roster ss = (ss', Done n)"
    and "usb_ID u = Some i"
    and "UnmarshalRegistered env (sb_Data (usb_Latest u)) = ConfigBody cfg"
    and "identities (ss r) i = Some sid" and "r \<in> set roster" and "(r, i) \<notin> h \<or> r = c"
  shows "\<exists>sid'. identities (ss' r) i = Some sid' \<and> Latest sid' = Some cfg \<and>
           Proposed sid' = None \<and> Data sid' = usb_Latest u \<and>
           Votes sid' = Votes sid \<and> Root sid' = Root sid"
proof -
  let ?P = "\<lambda>a. Latest a = Some cfg \<and> Proposed a = None \<and> Data a = usb_Latest u \<and>
              Votes a = Votes sid \<and> Root a = Root sid"
  show ?thesis
  proof (rule deliver_applies [of ?P, OF _ _ assms(1) _ assms(4-6)])
    show "?P a'" if "?P a" and "applyMsg env a (MUpdateSkipBlock u) = Done a'" for a a'
      using that assms(3) by auto
    show "?P a'" if "applyMsg env sid (MUpdateSkipBlock u) = Done a'" for a'
      using that assms(3) by auto
    show "msgID (MUpdateSkipBlock u) = Some i" using assms(2) by simp
  qed
qed


section \<open>ProposeVote\<close>

lemma Unlock_Lock: "\<not> locked w c i \<Longrightarrow> Unlock (Lock w c i) c i = w"
  by (simp add: locked_def Lock_def Unlock_def)

lemma ProposeVote_verify_ok_iff:
  "ProposeVote_verify env sid v = Done (Inr ()) \<longleftrightarrow>
     (\<exists>latest proposed owner h.
        Latest sid = Some latest \<and> Proposed sid = Some proposed \<and>
        fmlookup (Device latest) (Signer v) = Some owner \<and>
        Config_Hash env proposed = Some h \<and> Signer v |\<notin>| voted sid \<and>
        (\<forall>sg. Signature v = Some sg \<longrightarrow> VerifySchnorr env (Point owner) h sg))"
  by (auto simp: ProposeVote_verify_def voted_def split: option.splits)

text \<open>A request for a storage whose mutex is held waits at line 151.\<close>

lemma ProposeVote_blocked:
  assumes "getIdentityStorage (servers w c) (pv_ID v) = Some sid" and "locked w c (pv_ID v)"
  shows "ProposeVote env w c v = (w, Blocked)"
  using assms by (simp add: ProposeVote_def)

text \<open>A rejected vote changes no server and leaves the mutex of the storage held.\<close>

lemma ProposeVote_rejected:
  assumes "getIdentityStorage (servers w c) (pv_ID v) = Some sid"
    and "\<not> locked w c (pv_ID v)"
    and "ProposeVote_verify env sid v = Done (Inl e)"
  shows "ProposeVote env w c v = (Lock w c (pv_ID v), Done (Inl e))"
  using assms by (simp add: ProposeVote_def Let_def)

text \<open>An accepted vote is propagated with the mutex released.\<close>

lemma ProposeVote_accepted:
  assumes "getIdentityStorage (servers w c) (pv_ID v) = Some sid"
    and "\<not> locked w c (pv_ID v)"
    and "ProposeVote_verify env sid v = Done (Inr ())"
    and "PropagateStartAndWait env w c (sb_Roster (Root sid)) (MProposeVote v) = (w1, x)"
  shows "ProposeVote env w c v =
           (case x of
              Panic \<Rightarrow> (w1, Panic)
            | Blocked \<Rightarrow> (w1, Blocked)
            | Done (Inl e) \<Rightarrow> (w1, Done (Inl e))
            | Done (Inr replies) \<Rightarrow>
                (case getIdentityStorage (servers w1 c) (pv_ID v) of
                   None \<Rightarrow> (w1, Panic)
                 | Some sid1 \<Rightarrow>
                     (case quorum sid1 of
                        Panic \<Rightarrow> (w1, Panic)
                      | Blocked \<Rightarrow> (w1, Blocked)
                      | Done True \<Rightarrow> ProposeVote_commit env w1 c v sid1
                      | Done False \<Rightarrow> (w1, Done (Inr None)))))"
  using assms
  by (simp add: ProposeVote_def Let_def Unlock_Lock split: outcome.splits sum.splits)

lemma ProposeVote_commit_ledger:
  assumes "Proposed sid = Some proposed"
  shows "ledger (fst (ProposeVote_commit env w c v sid)) =
           ledger w @ [(Root sid, Data sid, proposed)]"
proof (cases "ProposeData env (Root sid) (Data sid) proposed")
  case (Inl e)
  with assms show ?thesis by (simp add: ProposeVote_commit_def)
next
  case (Inr latest)
  let ?w' = "w\<lparr>ledger := ledger w @ [(Root sid, Data sid, proposed)]\<rparr>"
  let ?usb = "MUpdateSkipBlock \<lparr>usb_ID = pv_ID v, usb_Latest = latest\<rparr>"
  obtain w'' r where
    p: "PropagateStartAndWait env ?w' c (sb_Roster (Root sid)) ?usb = (w'', r)"
    by (cases "PropagateStartAndWait env ?w' c (sb_Roster (Root sid)) ?usb")
  with PropagateStartAndWait_ledger [of env ?w' c "sb_Roster (Root sid)" ?usb]
  have "ledger w'' = ledger w @ [(Root sid, Data sid, proposed)]" by simp
  with assms Inr p show ?thesis
    by (simp add: ProposeVote_commit_def Let_def
        split: decoded.splits outcome.splits sum.splits option.splits)
qed

text \<open>The commit step when the ledger refuses, when the payload of the block it returns is no
  configuration, and when the block is propagated.\<close>

lemma ProposeVote_commit_refused:
  assumes "Proposed sid = Some proposed"
    and "ProposeData env (Root sid) (Data sid) proposed = Inl e"
  shows "ProposeVote_commit env w c v sid =
           (w\<lparr>ledger := ledger w @ [(Root sid, Data sid, proposed)]\<rparr>, Done (Inl e))"
  using assms by (simp add: ProposeVote_commit_def)

lemma ProposeVote_commit_undecodable:
  assumes "Proposed sid = Some proposed"
    and "ProposeData env (Root sid) (Data sid) proposed = Inr block"
    and "\<forall>cfg. UnmarshalRegistered env (sb_Data block) \<noteq> ConfigBody cfg"
  shows "ProposeVote_commit env w c v sid =
           (w\<lparr>ledger := ledger w @ [(Root sid, Data sid, proposed)]\<rparr>, Panic)"
  using assms
  by (cases "UnmarshalRegistered env (sb_Data block)") (simp_all add: ProposeVote_commit_def)

lemma ProposeVote_commit_installs:
  assumes p: "Proposed sid = Some proposed"
    and d: "ProposeData env (Root sid) (Data sid) proposed = Inr block"
    and u: "UnmarshalRegistered env (sb_Data block) = ConfigBody cfg"
    and s: "PropagateStartAndWait env (w\<lparr>ledger := ledger w @ [(Root sid, Data sid, proposed)]\<rparr>)
              c (sb_Roster (Root sid))
              (MUpdateSkipBlock \<lparr>usb_ID = pv_ID v, usb_Latest = block\<rparr>) = (w2, Done (Inr n2))"
  shows "fst (ProposeVote_commit env w c v sid) = w2"
    and "pv_ID v \<noteq> None \<longrightarrow>
           (\<forall>r\<in>set (sb_Roster (Root sid)). \<forall>sidr.
              getIdentityStorage (servers w r) (pv_ID v) = Some sidr \<and>
              (r = c \<or> \<not> locked w r (pv_ID v)) \<longrightarrow>
              (\<exists>sidr'. getIdentityStorage (servers w2 r) (pv_ID v) = Some sidr' \<and>
                        installed cfg block sidr sidr'))"
    and "c \<in> set (sb_Roster (Root sid)) \<and> pv_ID v \<noteq> None \<and>
         getIdentityStorage (servers w c) (pv_ID v) \<noteq> None \<longrightarrow>
           snd (ProposeVote_commit env w c v sid) = Done (Inr (Some block))"
proof -
  let ?w' = "w\<lparr>ledger := ledger w @ [(Root sid, Data sid, proposed)]\<rparr>"
  let ?u = "\<lparr>usb_ID = pv_ID v, usb_Latest = block\<rparr>"
  from s obtain ss2 where
    dl: "deliver env (held w) c (MUpdateSkipBlock ?u) (sb_Roster (Root sid)) (servers w) =
           (ss2, Done n2)" and
    w2: "w2 = ?w'\<lparr>servers := ss2\<rparr>"
    by (auto simp: PropagateStartAndWait_def split: option.splits prod.splits outcome.splits)
  have inst: "\<exists>sidr'. getIdentityStorage (servers w2 r) (pv_ID v) = Some sidr' \<and>
                       installed cfg block sidr sidr'"
    if "pv_ID v \<noteq> None" and "r \<in> set (sb_Roster (Root sid))"
      and "getIdentityStorage (servers w r) (pv_ID v) = Some sidr"
      and "r = c \<or> \<not> locked w r (pv_ID v)" for r sidr
  proof -
    from that(1) obtain i where i: "pv_ID v = Some i" by auto
    from that(3) i have reg: "identities (servers w r) i = Some sidr"
      by (simp add: getIdentityStorage_def)
    from that(4) i have fr: "(r, i) \<notin> held w \<or> r = c"
      by (auto simp: locked_def)
    have id: "usb_ID ?u = Some i" using i by simp
    have dec: "UnmarshalRegistered env (sb_Data (usb_Latest ?u)) = ConfigBody cfg"
      using u by simp
    from deliver_block_installed [OF dl id dec reg that(2) fr] i w2 show ?thesis
      by (auto simp: getIdentityStorage_def installed_def)
  qed
  have run: "ProposeVote_commit env w c v sid =
               (case getIdentityStorage (servers w2 c) (pv_ID v) of
                  None \<Rightarrow> (w2, Panic)
                | Some sid' \<Rightarrow> (w2, Done (Inr (Some (Data sid')))))"
    using p d u s by (simp add: ProposeVote_commit_def)
  show "fst (ProposeVote_commit env w c v sid) = w2"
    unfolding run by (simp split: option.splits)
  show "pv_ID v \<noteq> None \<longrightarrow>
           (\<forall>r\<in>set (sb_Roster (Root sid)). \<forall>sidr.
              getIdentityStorage (servers w r) (pv_ID v) = Some sidr \<and>
              (r = c \<or> \<not> locked w r (pv_ID v)) \<longrightarrow>
              (\<exists>sidr'. getIdentityStorage (servers w2 r) (pv_ID v) = Some sidr' \<and>
                        installed cfg block sidr sidr'))"
    using inst by blast
  show "c \<in> set (sb_Roster (Root sid)) \<and> pv_ID v \<noteq> None \<and>
        getIdentityStorage (servers w c) (pv_ID v) \<noteq> None \<longrightarrow>
          snd (ProposeVote_commit env w c v sid) = Done (Inr (Some block))"
  proof (intro impI, elim conjE)
    assume c: "c \<in> set (sb_Roster (Root sid))" and i: "pv_ID v \<noteq> None"
      and "getIdentityStorage (servers w c) (pv_ID v) \<noteq> None"
    then obtain sidc where "getIdentityStorage (servers w c) (pv_ID v) = Some sidc" by auto
    from inst [OF i c this] obtain sidc' where
      "getIdentityStorage (servers w2 c) (pv_ID v) = Some sidc'" and "Data sidc' = block"
      by (auto simp: installed_def)
    then show "snd (ProposeVote_commit env w c v sid) = Done (Inr (Some block))"
      unfolding run by simp
  qed
qed

lemma subset_fcard_eq:
  assumes "A |\<subseteq>| B"
  shows "fcard A = fcard B \<longleftrightarrow> A = B"
  using assms by (metis fcard_seteq order_refl)

lemma quorum_above_device_count:
  assumes "int (fcard D) < t" and "V |\<subseteq>| D"
  shows "(t \<le> int (fcard V) \<or> fcard V = fcard D) \<longleftrightarrow> V = D"
proof -
  from assms(2) have "fcard V \<le> fcard D" by (rule fcard_mono)
  with assms(1) have "\<not> t \<le> int (fcard V)" by linarith
  with subset_fcard_eq [OF assms(2)] show ?thesis by simp
qed

text \<open>The test of line 157 is never the one that answers: a storage without a proposal has
  made the request panic one statement earlier, with the mutex held.\<close>

lemma ProposeVote_verify_never_NoProposal:
  "ProposeVote_verify env sid v \<noteq> Done (Inl NoProposal)"
  by (auto simp: ProposeVote_verify_def split: option.splits)

lemma ProposeVote_no_proposal_panics:
  assumes "getIdentityStorage (servers w c) (pv_ID v) = Some sid"
    and "\<not> locked w c (pv_ID v)" and "Proposed sid = None"
  shows "ProposeVote env w c v = (Lock w c (pv_ID v), Panic)"
  using assms by (simp add: ProposeVote_def ProposeVote_verify_def Let_def)

text \<open>
  Claim C1, as amended. Let the mutex of the storage be free, let the checks of a vote pass and
  let its propagation return. The server that serves the request still holds the identity, with
  the configurations of before, and the commit step is taken exactly when the number of votes
  the server then holds is at least the threshold of \<open>Latest\<close> or equals the number of
  devices of \<open>Latest\<close>; from there on the request is the commit step. The commit
  step asks the ledger for a new block, once, with the proposal. When the ledger refuses, its error is the result. When the payload of the block is
  no configuration, the request panics. When the payload is a configuration and the propagation
  of the block returns, the world is the one that this propagation leaves: every member of the
  roster that holds the identity and does not wait for the mutex has the configuration of the
  block as \<open>Latest\<close>, nothing proposed and the block as its data block; and the block is the
  result of the request when the server is itself in the roster. When the commit step is not
  taken, the request returns the empty result and the ledger has not been asked.

  The votes are counted, not the devices that have voted: a recorded vote of a name that is no
  device of \<open>Latest\<close> counts as well. So only when all recorded votes are votes of devices
  and the threshold exceeds the number of devices, the ledger is asked exactly when the names
  that have voted are all the devices. When the server is itself in the roster, the names that
  have voted are those of before and the signer.
\<close>

theorem ProposeVote_commit_iff_quorum:
  assumes known: "getIdentityStorage (servers w c) (pv_ID v) = Some sid"
    and free: "\<not> locked w c (pv_ID v)"
    and ok: "ProposeVote_verify env sid v = Done (Inr ())"
    and sent: "PropagateStartAndWait env w c (sb_Roster (Root sid)) (MProposeVote v) =
                 (w1, Done (Inr n))"
  shows "\<exists>sid1 latest proposed.
           getIdentityStorage (servers w1 c) (pv_ID v) = Some sid1 \<and>
           Latest sid1 = Some latest \<and> Proposed sid1 = Some proposed \<and>
           same_round sid sid1 \<and>
           (if Threshold latest \<le> int (len_Votes sid1) \<or>
               len_Votes sid1 = fcard (fmdom (Device latest))
            then ProposeVote env w c v = ProposeVote_commit env w1 c v sid1 \<and>
                 ledger (fst (ProposeVote env w c v)) =
                   ledger w @ [(Root sid1, Data sid1, proposed)] \<and>
                 (\<forall>e. ProposeData env (Root sid1) (Data sid1) proposed = Inl e \<longrightarrow>
                    snd (ProposeVote env w c v) = Done (Inl e)) \<and>
                 (\<forall>block. ProposeData env (Root sid1) (Data sid1) proposed = Inr block \<and>
                    (\<forall>cfg. UnmarshalRegistered env (sb_Data block) \<noteq> ConfigBody cfg) \<longrightarrow>
                    snd (ProposeVote env w c v) = Panic) \<and>
                 (\<forall>block cfg w2 n2.
                    ProposeData env (Root sid1) (Data sid1) proposed = Inr block \<and>
                    UnmarshalRegistered env (sb_Data block) = ConfigBody cfg \<and>
                    PropagateStartAndWait env
                      (w1\<lparr>ledger := ledger w1 @ [(Root sid1, Data sid1, proposed)]\<rparr>)
                      c (sb_Roster (Root sid1))
                      (MUpdateSkipBlock \<lparr>usb_ID = pv_ID v, usb_Latest = block\<rparr>) =
                        (w2, Done (Inr n2)) \<longrightarrow>
                    fst (ProposeVote env w c v) = w2 \<and>
                    (pv_ID v \<noteq> None \<longrightarrow>
                       (\<forall>r\<in>set (sb_Roster (Root sid1)). \<forall>sidr.
                          getIdentityStorage (servers w1 r) (pv_ID v) = Some sidr \<and>
                          (r = c \<or> \<not> locked w1 r (pv_ID v)) \<longrightarrow>
                          (\<exists>sidr'. getIdentityStorage (servers w2 r) (pv_ID v) = Some sidr' \<and>
                                    installed cfg block sidr sidr'))) \<and>
                    (c \<in> set (sb_Roster (Root sid1)) \<and> pv_ID v \<noteq> None \<longrightarrow>
                       snd (ProposeVote env w c v) = Done (Inr (Some block))))
            else ProposeVote env w c v = (w1, Done (Inr None)) \<and> ledger w1 = ledger w) \<and>
           (ledger (fst (ProposeVote env w c v)) \<noteq> ledger w \<longleftrightarrow>
              Threshold latest \<le> int (len_Votes sid1) \<or>
              len_Votes sid1 = fcard (fmdom (Device latest))) \<and>
           (int (fcard (fmdom (Device latest))) < Threshold latest \<and>
            voted sid1 |\<subseteq>| fmdom (Device latest) \<longrightarrow>
              (ledger (fst (ProposeVote env w c v)) \<noteq> ledger w \<longleftrightarrow>
               voted sid1 = fmdom (Device latest))) \<and>
           (c \<in> set (sb_Roster (Root sid)) \<and> pv_ID v \<noteq> None \<longrightarrow>
              voted sid1 = finsert (Signer v) (voted sid))"
proof -
  from ok obtain latest proposed where
    lp: "Latest sid = Some latest" "Proposed sid = Some proposed"
    by (auto simp: ProposeVote_verify_ok_iff)
  from sent obtain ss1 where
    d: "deliver env (held w) c (MProposeVote v) (sb_Roster (Root sid)) (servers w) =
          (ss1, Done n)" and
    w1: "w1 = w\<lparr>servers := ss1\<rparr>"
    by (auto simp: PropagateStartAndWait_def split: option.splits prod.splits outcome.splits)
  from known have "identities (servers w c) (key (pv_ID v)) = Some sid"
    by (simp add: getIdentityStorage_def)
  from deliver_vote_frame [OF d this] obtain sid1 where
    s1: "identities (ss1 c) (key (pv_ID v)) = Some sid1" and fr: "same_round sid sid1"
    by blast
  from s1 w1 have g1: "getIdentityStorage (servers w1 c) (pv_ID v) = Some sid1"
    by (simp add: getIdentityStorage_def)
  from fr lp have lp1: "Latest sid1 = Some latest" "Proposed sid1 = Some proposed"
    by (simp_all add: same_round_def)
  let ?fired = "Threshold latest \<le> int (len_Votes sid1) \<or>
                len_Votes sid1 = fcard (fmdom (Device latest))"
  let ?PV = "ProposeVote env w c v"
  let ?e = "(Root sid1, Data sid1, proposed)"
  have q: "quorum sid1 = Done ?fired"
    using lp1 by (simp add: quorum_def)
  have l1: "ledger w1 = ledger w"
    using w1 by simp
  have run: "?PV = (if ?fired then ProposeVote_commit env w1 c v sid1 else (w1, Done (Inr None)))"
    using ProposeVote_accepted [OF known free ok sent] g1 q by simp
  have yes: "ledger (fst ?PV) = ledger w @ [?e]" if ?fired
    using that run ProposeVote_commit_ledger [OF lp1(2), of env w1 c v] l1 by simp
  have no: "?PV = (w1, Done (Inr None))" if "\<not> ?fired"
    using that run by simp
  have fired_iff: "ledger (fst ?PV) \<noteq> ledger w \<longleftrightarrow> ?fired"
  proof (cases ?fired)
    case True
    with yes show ?thesis by simp
  next
    case False
    with no l1 show ?thesis by simp
  qed
  have above: "ledger (fst ?PV) \<noteq> ledger w \<longleftrightarrow> voted sid1 = fmdom (Device latest)"
    if "int (fcard (fmdom (Device latest))) < Threshold latest"
      and "voted sid1 |\<subseteq>| fmdom (Device latest)"
    using quorum_above_device_count [OF that] fired_iff by (simp add: len_Votes_voted)
  have local: "voted sid1 = finsert (Signer v) (voted sid)"
    if "c \<in> set (sb_Roster (Root sid))" and "pv_ID v \<noteq> None"
  proof -
    from that(2) obtain i where i: "pv_ID v = Some i" by auto
    with known have "identities (servers w c) i = Some sid"
      by (simp add: getIdentityStorage_def)
    from deliver_vote_recorded [OF d i this that(1)] s1 i show ?thesis
      by (auto simp: voted_def)
  qed
  have refused: "snd ?PV = Done (Inl e)"
    if ?fired and "ProposeData env (Root sid1) (Data sid1) proposed = Inl e" for e
  proof -
    from run that(1) have "?PV = ProposeVote_commit env w1 c v sid1" by (simp only: if_True)
    with ProposeVote_commit_refused [OF lp1(2) that(2), of w1 c v] show ?thesis by simp
  qed
  have undecodable: "snd ?PV = Panic"
    if ?fired and "ProposeData env (Root sid1) (Data sid1) proposed = Inr block"
      and "\<forall>cfg. UnmarshalRegistered env (sb_Data block) \<noteq> ConfigBody cfg" for block
  proof -
    from run that(1) have "?PV = ProposeVote_commit env w1 c v sid1" by (simp only: if_True)
    with ProposeVote_commit_undecodable [OF lp1(2) that(2,3), of w1 c v] show ?thesis by simp
  qed
  have propagated:
    "fst ?PV = w2 \<and>
     (pv_ID v \<noteq> None \<longrightarrow>
        (\<forall>r\<in>set (sb_Roster (Root sid1)). \<forall>sidr.
           getIdentityStorage (servers w1 r) (pv_ID v) = Some sidr \<and>
           (r = c \<or> \<not> locked w1 r (pv_ID v)) \<longrightarrow>
           (\<exists>sidr'. getIdentityStorage (servers w2 r) (pv_ID v) = Some sidr' \<and>
                     installed cfg block sidr sidr'))) \<and>
     (c \<in> set (sb_Roster (Root sid1)) \<and> pv_ID v \<noteq> None \<longrightarrow>
        snd ?PV = Done (Inr (Some block)))"
    if ?fired and pd: "ProposeData env (Root sid1) (Data sid1) proposed = Inr block"
      and un: "UnmarshalRegistered env (sb_Data block) = ConfigBody cfg"
      and ps: "PropagateStartAndWait env (w1\<lparr>ledger := ledger w1 @ [?e]\<rparr>)
                 c (sb_Roster (Root sid1))
                 (MUpdateSkipBlock \<lparr>usb_ID = pv_ID v, usb_Latest = block\<rparr>) =
                   (w2, Done (Inr n2))"
    for block cfg w2 n2
  proof -
    from run that(1) have eq: "?PV = ProposeVote_commit env w1 c v sid1"
      by (simp only: if_True)
    note inst = ProposeVote_commit_installs [OF lp1(2) pd un ps]
    from inst(3) g1 have "c \<in> set (sb_Roster (Root sid1)) \<and> pv_ID v \<noteq> None \<longrightarrow>
        snd (ProposeVote_commit env w1 c v sid1) = Done (Inr (Some block))"
      by simp
    with inst(1,2) show ?thesis
      unfolding eq by (intro conjI)
  qed
  have branch:
    "if ?fired
     then ?PV = ProposeVote_commit env w1 c v sid1 \<and>
          ledger (fst ?PV) = ledger w @ [?e] \<and>
          (\<forall>e. ProposeData env (Root sid1) (Data sid1) proposed = Inl e \<longrightarrow>
             snd ?PV = Done (Inl e)) \<and>
          (\<forall>block. ProposeData env (Root sid1) (Data sid1) proposed = Inr block \<and>
             (\<forall>cfg. UnmarshalRegistered env (sb_Data block) \<noteq> ConfigBody cfg) \<longrightarrow>
             snd ?PV = Panic) \<and>
          (\<forall>block cfg w2 n2.
             ProposeData env (Root sid1) (Data sid1) proposed = Inr block \<and>
             UnmarshalRegistered env (sb_Data block) = ConfigBody cfg \<and>
             PropagateStartAndWait env (w1\<lparr>ledger := ledger w1 @ [?e]\<rparr>)
               c (sb_Roster (Root sid1))
               (MUpdateSkipBlock \<lparr>usb_ID = pv_ID v, usb_Latest = block\<rparr>) =
                 (w2, Done (Inr n2)) \<longrightarrow>
             fst ?PV = w2 \<and>
             (pv_ID v \<noteq> None \<longrightarrow>
                (\<forall>r\<in>set (sb_Roster (Root sid1)). \<forall>sidr.
                   getIdentityStorage (servers w1 r) (pv_ID v) = Some sidr \<and>
                   (r = c \<or> \<not> locked w1 r (pv_ID v)) \<longrightarrow>
                   (\<exists>sidr'. getIdentityStorage (servers w2 r) (pv_ID v) = Some sidr' \<and>
                             installed cfg block sidr sidr'))) \<and>
             (c \<in> set (sb_Roster (Root sid1)) \<and> pv_ID v \<noteq> None \<longrightarrow>
                snd ?PV = Done (Inr (Some block))))
     else ?PV = (w1, Done (Inr None)) \<and> ledger w1 = ledger w"
  proof (cases ?fired)
    case True
    have a: "\<forall>e. ProposeData env (Root sid1) (Data sid1) proposed = Inl e \<longrightarrow>
               snd ?PV = Done (Inl e)"
      using refused [OF True] by blast
    have b: "\<forall>block. ProposeData env (Root sid1) (Data sid1) proposed = Inr block \<and>
               (\<forall>cfg. UnmarshalRegistered env (sb_Data block) \<noteq> ConfigBody cfg) \<longrightarrow>
               snd ?PV = Panic"
      using undecodable [OF True] by blast
    have c: "\<forall>block cfg w2 n2.
               ProposeData env (Root sid1) (Data sid1) proposed = Inr block \<and>
               UnmarshalRegistered env (sb_Data block) = ConfigBody cfg \<and>
               PropagateStartAndWait env (w1\<lparr>ledger := ledger w1 @ [?e]\<rparr>)
                 c (sb_Roster (Root sid1))
                 (MUpdateSkipBlock \<lparr>usb_ID = pv_ID v, usb_Latest = block\<rparr>) =
                   (w2, Done (Inr n2)) \<longrightarrow>
               fst ?PV = w2 \<and>
               (pv_ID v \<noteq> None \<longrightarrow>
                  (\<forall>r\<in>set (sb_Roster (Root sid1)). \<forall>sidr.
                     getIdentityStorage (servers w1 r) (pv_ID v) = Some sidr \<and>
                     (r = c \<or> \<not> locked w1 r (pv_ID v)) \<longrightarrow>
                     (\<exists>sidr'. getIdentityStorage (servers w2 r) (pv_ID v) = Some sidr' \<and>
                               installed cfg block sidr sidr'))) \<and>
               (c \<in> set (sb_Roster (Root sid1)) \<and> pv_ID v \<noteq> None \<longrightarrow>
                  snd ?PV = Done (Inr (Some block)))"
      by (intro allI impI, elim conjE, rule propagated [OF True]; assumption)
    from run True have eq: "?PV = ProposeVote_commit env w1 c v sid1"
      by (simp only: if_True)
    from eq yes [OF True] a b c show ?thesis
      by (subst if_P [OF True]) (intro conjI)
  next
    case False
    from no [OF False] l1 show ?thesis
      by (subst if_not_P [OF False]) (rule conjI)
  qed
  show ?thesis
  proof (rule exI [of _ sid1], rule exI [of _ latest], rule exI [of _ proposed],
      rule conjI [OF g1], rule conjI [OF lp1(1)], rule conjI [OF lp1(2)], rule conjI [OF fr],
      rule conjI [OF branch], rule conjI [OF fired_iff], rule conjI)
    show "int (fcard (fmdom (Device latest))) < Threshold latest \<and>
          voted sid1 |\<subseteq>| fmdom (Device latest) \<longrightarrow>
            (ledger (fst ?PV) \<noteq> ledger w \<longleftrightarrow> voted sid1 = fmdom (Device latest))"
      using above by blast
    show "c \<in> set (sb_Roster (Root sid)) \<and> pv_ID v \<noteq> None \<longrightarrow>
            voted sid1 = finsert (Signer v) (voted sid)"
      using local by blast
  qed
qed

theorem ProposeVote_commit_iff_quorum_witness:
  "getIdentityStorage (servers ex_world3 0) (pv_ID ex_voteB) = Some ex_storage3 \<and>
   \<not> locked ex_world3 0 (pv_ID ex_voteB) \<and>
   ProposeVote_verify ex_env ex_storage3 ex_voteB = Done (Inr ()) \<and>
   PropagateStartAndWait ex_env ex_world3 0 (sb_Roster (Root ex_storage3))
     (MProposeVote ex_voteB) = (ex_world4, Done (Inr 3)) \<and>
   int (fcard (fmdom (Device ex_cfg0))) < Threshold ex_cfg0 \<and>
   voted ex_storage4 |\<subseteq>| fmdom (Device ex_cfg0) \<and>
   0 \<in> set (sb_Roster (Root ex_storage3)) \<and> pv_ID ex_voteB \<noteq> None \<and>
   getIdentityStorage (servers ex_world4 0) (pv_ID ex_voteB) = Some ex_storage4 \<and>
   voted ex_storage4 = finsert (Signer ex_voteB) (voted ex_storage3) \<and>
   len_Votes ex_storage4 = fcard (fmdom (Device ex_cfg0)) \<and>
   ProposeData ex_env ex_root ex_data ex_cfg1 = Inr ex_block \<and>
   UnmarshalRegistered ex_env (sb_Data ex_block) = ConfigBody ex_cfg1 \<and>
   PropagateStartAndWait ex_env
     (ex_world4\<lparr>ledger := ledger ex_world4 @ [(ex_root, ex_data, ex_cfg1)]\<rparr>) 0 [0, 1, 2]
     (MUpdateSkipBlock \<lparr>usb_ID = pv_ID ex_voteB, usb_Latest = ex_block\<rparr>) =
       (ex_world6, Done (Inr 3)) \<and>
   ProposeVote ex_env ex_world3 0 ex_voteB = (ex_world6, Done (Inr (Some ex_block))) \<and>
   ledger ex_world6 = ledger ex_world3 @ [(ex_root, ex_data, ex_cfg1)] \<and>
   getIdentityStorage (servers ex_world6 0) (pv_ID ex_voteB) = Some ex_storage6 \<and>
   getIdentityStorage (servers ex_world6 1) (pv_ID ex_voteB) = Some ex_storage6 \<and>
   getIdentityStorage (servers ex_world6 2) (pv_ID ex_voteB) = Some ex_storage6 \<and>
   installed ex_cfg1 ex_block ex_storage4 ex_storage6"
proof -
  let ?PV = "ProposeVote ex_env ex_world3 0 ex_voteB"
  have h1: "getIdentityStorage (servers ex_world3 0) (pv_ID ex_voteB) = Some ex_storage3"
    by (simp add: ex_voteB_def ex_world3_holds)
  have h0: "\<not> locked ex_world3 0 (pv_ID ex_voteB)"
    by (simp add: locked_def ex_world3_held)
  have h2: "ProposeVote_verify ex_env ex_storage3 ex_voteB = Done (Inr ())"
    by (simp add: ProposeVote_verify_def ex_storage3_def ex_voteB_def ex_cfg0_def ex_env_def)
  have "snd (PropagateStartAndWait ex_env ex_world3 0 [0, 1, 2] (MProposeVote ex_voteB)) =
          Done (Inr 3)"
    by (simp add: ex_defs run_defs)
  then have h3: "PropagateStartAndWait ex_env ex_world3 0 (sb_Roster (Root ex_storage3))
                   (MProposeVote ex_voteB) = (ex_world4, Done (Inr 3))"
    by (simp add: ex_world4_def ex_storage3_def ex_root_def prod_eq_iff)
  have h4: "int (fcard (fmdom (Device ex_cfg0))) < Threshold ex_cfg0"
    by (simp add: ex_cfg0_def fcard_finsert_if fcard_fempty)
  have h5: "0 \<in> set (sb_Roster (Root ex_storage3))"
    by (simp add: ex_storage3_def ex_root_def)
  have h6: "ProposeData ex_env ex_root ex_data ex_cfg1 = Inr ex_block"
    by (simp add: ex_env_def)
  have h7: "UnmarshalRegistered ex_env (sb_Data ex_block) = ConfigBody ex_cfg1"
    by (simp add: ex_env_def ex_block_def)
  have "snd (PropagateStartAndWait ex_env
               (ex_world4\<lparr>ledger := ledger ex_world4 @ [(ex_root, ex_data, ex_cfg1)]\<rparr>)
               0 [0, 1, 2] (MUpdateSkipBlock ex_usb)) = Done (Inr 3)"
    by (simp add: ex_defs run_defs)
  then have h8: "PropagateStartAndWait ex_env
                   (ex_world4\<lparr>ledger := ledger ex_world4 @ [(ex_root, ex_data, ex_cfg1)]\<rparr>)
                   0 [0, 1, 2]
                   (MUpdateSkipBlock \<lparr>usb_ID = pv_ID ex_voteB, usb_Latest = ex_block\<rparr>) =
                     (ex_world6, Done (Inr 3))"
    by (simp add: ex_world6_def ex_usb_def ex_voteB_def prod_eq_iff)
  have g: "getIdentityStorage (servers ex_world4 0) (pv_ID ex_voteB) = Some ex_storage4"
    by (simp add: ex_voteB_def ex_world4_holds)
  have q: "len_Votes ex_storage4 = fcard (fmdom (Device ex_cfg0))"
    by (simp add: len_Votes_def ex_storage4_def ex_cfg0_def fcard_finsert_if fcard_fempty)
  have g6: "getIdentityStorage (servers ex_world6 r) (pv_ID ex_voteB) = Some ex_storage6"
    if "r = 0 \<or> r = 1 \<or> r = 2" for r
    using that by (simp add: ex_voteB_def ex_world6_holds)
  from ProposeVote_commit_iff_quorum [OF h1 h0 h2 h3] obtain sid1 latest proposed where
    a: "getIdentityStorage (servers ex_world4 0) (pv_ID ex_voteB) = Some sid1"
       "Latest sid1 = Some latest" "Proposed sid1 = Some proposed" and
    b: "if Threshold latest \<le> int (len_Votes sid1) \<or>
           len_Votes sid1 = fcard (fmdom (Device latest))
        then ?PV = ProposeVote_commit ex_env ex_world4 0 ex_voteB sid1 \<and>
             ledger (fst ?PV) = ledger ex_world3 @ [(Root sid1, Data sid1, proposed)] \<and>
             (\<forall>e. ProposeData ex_env (Root sid1) (Data sid1) proposed = Inl e \<longrightarrow>
                snd ?PV = Done (Inl e)) \<and>
             (\<forall>block. ProposeData ex_env (Root sid1) (Data sid1) proposed = Inr block \<and>
                (\<forall>cfg. UnmarshalRegistered ex_env (sb_Data block) \<noteq> ConfigBody cfg) \<longrightarrow>
                snd ?PV = Panic) \<and>
             (\<forall>block cfg w2 n2.
                ProposeData ex_env (Root sid1) (Data sid1) proposed = Inr block \<and>
                UnmarshalRegistered ex_env (sb_Data block) = ConfigBody cfg \<and>
                PropagateStartAndWait ex_env
                  (ex_world4\<lparr>ledger := ledger ex_world4 @ [(Root sid1, Data sid1, proposed)]\<rparr>)
                  0 (sb_Roster (Root sid1))
                  (MUpdateSkipBlock \<lparr>usb_ID = pv_ID ex_voteB, usb_Latest = block\<rparr>) =
                    (w2, Done (Inr n2)) \<longrightarrow>
                fst ?PV = w2 \<and>
                (pv_ID ex_voteB \<noteq> None \<longrightarrow>
                   (\<forall>r\<in>set (sb_Roster (Root sid1)). \<forall>sidr.
                      getIdentityStorage (servers ex_world4 r) (pv_ID ex_voteB) = Some sidr \<and>
                      (r = 0 \<or> \<not> locked ex_world4 r (pv_ID ex_voteB)) \<longrightarrow>
                      (\<exists>sidr'. getIdentityStorage (servers w2 r) (pv_ID ex_voteB) =
                                  Some sidr' \<and>
                                installed cfg block sidr sidr'))) \<and>
                (0 \<in> set (sb_Roster (Root sid1)) \<and> pv_ID ex_voteB \<noteq> None \<longrightarrow>
                   snd ?PV = Done (Inr (Some block))))
        else ?PV = (ex_world4, Done (Inr None)) \<and> ledger ex_world4 = ledger ex_world3"
    by blast
  from a(1) g have sid1: "sid1 = ex_storage4" by simp
  with a(2,3) have lp: "latest = ex_cfg0" "proposed = ex_cfg1"
    by (simp_all add: ex_storage4_def)
  have rd: "Root sid1 = ex_root" "Data sid1 = ex_data" "sb_Roster ex_root = [0, 1, 2]"
    by (simp_all add: sid1 ex_storage4_def ex_root_def)
  from q sid1 lp(1) have fired: "Threshold latest \<le> int (len_Votes sid1) \<or>
      len_Votes sid1 = fcard (fmdom (Device latest))"
    by simp
  note b1 = b [unfolded if_P [OF fired]]
  note b' = b1 [unfolded rd lp]
  from b' have led: "ledger (fst ?PV) = ledger ex_world3 @ [(ex_root, ex_data, ex_cfg1)]"
    by (elim conjE)
  from b' have "\<forall>block cfg w2 n2.
      ProposeData ex_env ex_root ex_data ex_cfg1 = Inr block \<and>
      UnmarshalRegistered ex_env (sb_Data block) = ConfigBody cfg \<and>
      PropagateStartAndWait ex_env
        (ex_world4\<lparr>ledger := ledger ex_world4 @ [(ex_root, ex_data, ex_cfg1)]\<rparr>)
        0 [0, 1, 2]
        (MUpdateSkipBlock \<lparr>usb_ID = pv_ID ex_voteB, usb_Latest = block\<rparr>) =
          (w2, Done (Inr n2)) \<longrightarrow>
      fst ?PV = w2 \<and>
      (pv_ID ex_voteB \<noteq> None \<longrightarrow>
         (\<forall>r\<in>set [0, 1, 2]. \<forall>sidr.
            getIdentityStorage (servers ex_world4 r) (pv_ID ex_voteB) = Some sidr \<and>
            (r = 0 \<or> \<not> locked ex_world4 r (pv_ID ex_voteB)) \<longrightarrow>
            (\<exists>sidr'. getIdentityStorage (servers w2 r) (pv_ID ex_voteB) = Some sidr' \<and>
                      installed cfg block sidr sidr'))) \<and>
      ((0::nat) \<in> set [0, 1, 2] \<and> pv_ID ex_voteB \<noteq> None \<longrightarrow>
         snd ?PV = Done (Inr (Some block)))"
    by (elim conjE)
  with h6 h7 h8 have
    c1: "fst ?PV = ex_world6" and
    c2: "pv_ID ex_voteB \<noteq> None \<longrightarrow>
           (\<forall>r\<in>set [0, 1, 2]. \<forall>sidr.
              getIdentityStorage (servers ex_world4 r) (pv_ID ex_voteB) = Some sidr \<and>
              (r = 0 \<or> \<not> locked ex_world4 r (pv_ID ex_voteB)) \<longrightarrow>
              (\<exists>sidr'. getIdentityStorage (servers ex_world6 r) (pv_ID ex_voteB) = Some sidr' \<and>
                        installed ex_cfg1 ex_block sidr sidr'))" and
    c3: "(0::nat) \<in> set [0, 1, 2] \<and> pv_ID ex_voteB \<noteq> None \<longrightarrow>
           snd ?PV = Done (Inr (Some ex_block))"
    by blast+
  have id: "pv_ID ex_voteB \<noteq> None"
    by (simp add: ex_voteB_def)
  from c3 id have c3': "snd ?PV = Done (Inr (Some ex_block))" by simp
  from c1 c3' have res: "?PV = (ex_world6, Done (Inr (Some ex_block)))"
    by (simp add: prod_eq_iff)
  from c2 id g have "\<exists>sidr'. getIdentityStorage (servers ex_world6 0) (pv_ID ex_voteB) =
                               Some sidr' \<and>
                             installed ex_cfg1 ex_block ex_storage4 sidr'"
    by simp
  with g6 [of 0] have ins: "installed ex_cfg1 ex_block ex_storage4 ex_storage6" by simp
  from led c1 have led6: "ledger ex_world6 = ledger ex_world3 @ [(ex_root, ex_data, ex_cfg1)]"
    by simp
  have sub: "voted ex_storage4 |\<subseteq>| fmdom (Device ex_cfg0)"
    by (simp add: voted_def ex_storage4_def ex_cfg0_def)
  have ins4: "voted ex_storage4 = finsert (Signer ex_voteB) (voted ex_storage3)"
    by (simp add: voted_def ex_storage4_def ex_storage3_def ex_voteB_def)
  from h1 h0 h2 h3 h4 sub h5 id g ins4 q h6 h7 h8 res led6 g6 [of 0] g6 [of 1] g6 [of 2] ins
  show ?thesis
    by (intro conjI) simp_all
qed

text \<open>The claim C1 as it is written has the commit step wait for every device when the
  threshold exceeds the number of devices. The identity has the devices \<open>A\<close> and \<open>B\<close> and
  the threshold 3. In \<open>ex_worldZ\<close> the servers have recorded a vote of the name \<open>Z\<close>, which
  is no device. Now \<open>A\<close> votes: two votes are counted, as many as there are devices, the
  ledger is asked and the new block is the result, while the device \<open>B\<close> has not voted.\<close>

theorem ProposeVote_commits_before_all_devices:
  "int (fcard (fmdom (Device ex_cfg0))) < Threshold ex_cfg0 \<and>
   held ex_worldZ = {} \<and> ledger ex_worldZ = [] \<and>
   map_option Latest (getIdentityStorage (servers ex_worldZ 0) (Some ''identity'')) =
     Some (Some ex_cfg0) \<and>
   map_option voted (getIdentityStorage (servers ex_worldZ 0) (Some ''identity'')) =
     Some {|''Z''|} \<and>
   snd (ProposeVote ex_env ex_worldZ 0 ex_voteA) = Done (Inr (Some ex_block)) \<and>
   ledger (fst (ProposeVote ex_env ex_worldZ 0 ex_voteA)) = [(ex_root, ex_data, ex_cfg1)] \<and>
   map_option voted
     (getIdentityStorage (servers (fst (ProposeVote ex_env ex_worldZ 0 ex_voteA)) 0)
        (Some ''identity'')) = Some {|''A'', ''Z''|} \<and>
   ''B'' |\<in>| fmdom (Device ex_cfg0) \<and> ''B'' |\<notin>| {|''A'', ''Z''|}"
  by (simp add: ex_defs ex_worldZ_def run_defs voted_def)

text \<open>A vote of a device that has an entry in the votes of the round is answered with
  \<open>DuplicateVote\<close> and changes no server; it leaves the mutex of the storage held (the return
  of line 165 comes before the \<^verbatim>\<open>Unlock\<close> of line 174), and the next vote for the
  identity on that server waits at line 151.\<close>

lemma ProposeVote_duplicate_leaves_locked:
  assumes "getIdentityStorage (servers w c) (pv_ID v) = Some sid"
    and "\<not> locked w c (pv_ID v)"
    and "Proposed sid = Some proposed" and "Latest sid = Some latest"
    and "fmlookup (Device latest) (Signer v) = Some owner"
    and "Config_Hash env proposed = Some h"
    and "Signer v |\<in>| voted sid"
  shows "ProposeVote env w c v = (Lock w c (pv_ID v), Done (Inl DuplicateVote))"
    and "\<And>v'. pv_ID v' = pv_ID v \<Longrightarrow>
           ProposeVote env (Lock w c (pv_ID v)) c v' = (Lock w c (pv_ID v), Blocked)"
proof -
  from assms(3-7) have "ProposeVote_verify env sid v = Done (Inl DuplicateVote)"
    by (auto simp: ProposeVote_verify_def voted_def split: option.splits)
  with assms(1,2) show "ProposeVote env w c v = (Lock w c (pv_ID v), Done (Inl DuplicateVote))"
    by (rule ProposeVote_rejected)
  show "ProposeVote env (Lock w c (pv_ID v)) c v' = (Lock w c (pv_ID v), Blocked)"
    if "pv_ID v' = pv_ID v" for v'
  proof -
    from assms(1) that
    have "getIdentityStorage (servers (Lock w c (pv_ID v)) c) (pv_ID v') = Some sid"
      and "locked (Lock w c (pv_ID v)) c (pv_ID v')"
      by (simp_all add: Lock_def locked_def)
    then show ?thesis by (rule ProposeVote_blocked)
  qed
qed

text \<open>Whatever the devices and the hash are, a vote of a name that has an entry in the votes of
  the round is rejected by one of the checks, and no server has changed.\<close>

lemma ProposeVote_repeated_vote_changes_nothing:
  assumes "getIdentityStorage (servers w c) (pv_ID v) = Some sid"
    and "\<not> locked w c (pv_ID v)"
    and "Proposed sid = Some proposed" and "Latest sid = Some latest"
    and "Signer v |\<in>| voted sid"
  shows "ProposeVote env w c v =
           (Lock w c (pv_ID v),
            Done (Inl (if fmlookup (Device latest) (Signer v) = None then SignerUnknown
                       else if Config_Hash env proposed = None then HashFailed
                       else DuplicateVote)))"
proof -
  from assms(3-5) have "ProposeVote_verify env sid v =
      Done (Inl (if fmlookup (Device latest) (Signer v) = None then SignerUnknown
                 else if Config_Hash env proposed = None then HashFailed
                 else DuplicateVote))"
    by (auto simp: ProposeVote_verify_def voted_def split: option.splits)
  with assms(1,2) show ?thesis by (rule ProposeVote_rejected)
qed

text \<open>
  Claim C7, at an input where the code does otherwise. The device \<open>A\<close> has voted in the round
  of \<open>ex_world3\<close>, and no mutex is held. \<open>A\<close> sends its vote to server 0 again: the
  request is answered with \<open>DuplicateVote\<close>, the servers and the ledger are as before, and
  the mutex of the storage on server 0 is left held. \<open>A\<close> sends its vote a third time: the
  signer has an entry in the votes, and the request is not rejected with \<open>DuplicateVote\<close>; it
  waits for the mutex at line 151 and does not return.
\<close>

theorem ProposeVote_duplicate_then_blocked:
  "getIdentityStorage (servers ex_world3 0) (pv_ID ex_voteA) = Some ex_storage3 \<and>
   Proposed ex_storage3 = Some ex_cfg1 \<and> Signer ex_voteA |\<in>| voted ex_storage3 \<and>
   held ex_world3 = {} \<and>
   ProposeVote ex_env ex_world3 0 ex_voteA = (ex_world5, Done (Inl DuplicateVote)) \<and>
   servers ex_world5 = servers ex_world3 \<and> ledger ex_world5 = ledger ex_world3 \<and>
   held ex_world5 = {(0, ''identity'')} \<and>
   getIdentityStorage (servers ex_world5 0) (pv_ID ex_voteA) = Some ex_storage3 \<and>
   ProposeVote ex_env ex_world5 0 ex_voteA = (ex_world5, Blocked)"
proof -
  have h1: "getIdentityStorage (servers ex_world3 0) (pv_ID ex_voteA) = Some ex_storage3"
    by (simp add: ex_voteA_def ex_world3_holds)
  have h0: "\<not> locked ex_world3 0 (pv_ID ex_voteA)"
    by (simp add: locked_def ex_world3_held)
  have h2: "Proposed ex_storage3 = Some ex_cfg1" and h3: "Latest ex_storage3 = Some ex_cfg0"
    by (simp_all add: ex_storage3_def)
  have h4: "fmlookup (Device ex_cfg0) (Signer ex_voteA) = Some \<lparr>Point = 1\<rparr>"
    by (simp add: ex_cfg0_def ex_voteA_def)
  have h5: "Config_Hash ex_env ex_cfg1 = Some ''digest''"
    by (simp add: ex_env_def)
  have h6: "Signer ex_voteA |\<in>| voted ex_storage3"
    by (simp add: voted_def ex_storage3_def ex_voteA_def)
  note dup = ProposeVote_duplicate_leaves_locked [OF h1 h0 h2 h3 h4 h5 h6]
  from dup(1) have w5: "ex_world5 = Lock ex_world3 0 (pv_ID ex_voteA)"
    by (simp add: ex_world5_def)
  from dup(1) w5
  have first: "ProposeVote ex_env ex_world3 0 ex_voteA = (ex_world5, Done (Inl DuplicateVote))"
    by simp
  from dup(2) [of ex_voteA, OF refl] w5
  have again: "ProposeVote ex_env ex_world5 0 ex_voteA = (ex_world5, Blocked)"
    by simp
  have same: "servers ex_world5 = servers ex_world3" "ledger ex_world5 = ledger ex_world3"
    by (simp_all add: w5 Lock_def)
  have lock: "held ex_world5 = {(0, ''identity'')}"
    by (simp add: w5 Lock_def ex_world3_held ex_voteA_def)
  from h1 same(1)
  have h1': "getIdentityStorage (servers ex_world5 0) (pv_ID ex_voteA) = Some ex_storage3"
    by simp
  from h1 h2 h6 ex_world3_held first same lock h1' again show ?thesis
    by (intro conjI)
qed

text \<open>
  Claim C3, at an input where the code does otherwise. The identity has just been added, nothing
  is proposed and no mutex is held. The device \<open>A\<close> votes: the request panics at the log
  statement of line 152, which reads the devices of the missing proposal, and the test that
  would answer \<open>NoProposal\<close> five lines further down is not reached. The servers and the
  ledger are as before; the mutex of the storage, locked one line earlier, stays held.
\<close>

theorem ProposeVote_without_proposal_panics:
  "getIdentityStorage (servers ex_world1 0) (pv_ID ex_voteA) = Some ex_storage1 \<and>
   Proposed ex_storage1 = None \<and>
   fmlookup (Device ex_cfg0) (Signer ex_voteA) = Some \<lparr>Point = 1\<rparr> \<and>
   held ex_world1 = {} \<and>
   ProposeVote ex_env ex_world1 0 ex_voteA = (ex_world1\<lparr>held := {(0, ''identity'')}\<rparr>, Panic)"
proof -
  have h1: "getIdentityStorage (servers ex_world1 0) (pv_ID ex_voteA) = Some ex_storage1"
    by (simp add: ex_voteA_def ex_world1_holds)
  have h0: "\<not> locked ex_world1 0 (pv_ID ex_voteA)"
    by (simp add: locked_def ex_world1_held)
  have h2: "Proposed ex_storage1 = None"
    by (simp add: ex_storage1_def)
  have h3: "fmlookup (Device ex_cfg0) (Signer ex_voteA) = Some \<lparr>Point = 1\<rparr>"
    by (simp add: ex_cfg0_def ex_voteA_def)
  have "Lock ex_world1 0 (pv_ID ex_voteA) = ex_world1\<lparr>held := {(0, ''identity'')}\<rparr>"
    by (simp add: Lock_def ex_world1_held ex_voteA_def)
  with ProposeVote_no_proposal_panics [OF h1 h0 h2, of ex_env] h1 h2 h3 ex_world1_held
  show ?thesis by simp
qed

text \<open>While a proposal is outstanding, a vote of a name that is no device of \<open>Latest\<close> is
  answered with \<open>SignerUnknown\<close> and changes no server; the mutex stays held.\<close>

lemma ProposeVote_unknown_signer_in_round:
  assumes "getIdentityStorage (servers w c) (pv_ID v) = Some sid"
    and "\<not> locked w c (pv_ID v)"
    and "Proposed sid = Some proposed" and "Latest sid = Some latest"
    and "fmlookup (Device latest) (Signer v) = None"
  shows "ProposeVote env w c v = (Lock w c (pv_ID v), Done (Inl SignerUnknown))"
proof -
  from assms(3-5) have "ProposeVote_verify env sid v = Done (Inl SignerUnknown)"
    by (simp add: ProposeVote_verify_def)
  with assms(1,2) show ?thesis by (rule ProposeVote_rejected)
qed

text \<open>
  Claim C6, at an input where the code does otherwise. The identity has just been added, nothing
  is proposed and no mutex is held. The name \<open>Z\<close>, which is no device, votes: the request
  panics at the log statement of line 152 instead of answering \<open>SignerUnknown\<close>. No vote is
  recorded; the mutex of the storage stays held.
\<close>

theorem ProposeVote_unknown_signer_panics:
  "getIdentityStorage (servers ex_world1 0) (pv_ID ex_voteZ) = Some ex_storage1 \<and>
   Latest ex_storage1 = Some ex_cfg0 \<and>
   fmlookup (Device ex_cfg0) (Signer ex_voteZ) = None \<and>
   held ex_world1 = {} \<and>
   ProposeVote ex_env ex_world1 0 ex_voteZ = (ex_world1\<lparr>held := {(0, ''identity'')}\<rparr>, Panic)"
proof -
  have h1: "getIdentityStorage (servers ex_world1 0) (pv_ID ex_voteZ) = Some ex_storage1"
    by (simp add: ex_voteZ_def ex_world1_holds)
  have h0: "\<not> locked ex_world1 0 (pv_ID ex_voteZ)"
    by (simp add: locked_def ex_world1_held)
  have h2: "Proposed ex_storage1 = None" "Latest ex_storage1 = Some ex_cfg0"
    by (simp_all add: ex_storage1_def)
  have h3: "fmlookup (Device ex_cfg0) (Signer ex_voteZ) = None"
    by (simp add: ex_cfg0_def ex_voteZ_def)
  have "Lock ex_world1 0 (pv_ID ex_voteZ) = ex_world1\<lparr>held := {(0, ''identity'')}\<rparr>"
    by (simp add: Lock_def ex_world1_held ex_voteZ_def)
  with ProposeVote_no_proposal_panics [OF h1 h0 h2(1), of ex_env] h1 h2 h3 ex_world1_held
  show ?thesis by simp
qed

section \<open>Votes with and without a signature\<close>
















section \<open>The signature check is the only use of the verifier\<close>

lemma applyMsg_verifier: "applyMsg (env\<lparr>VerifySchnorr := f\<rparr>) sid m = applyMsg env sid m"
  by (cases m) simp_all










section \<open>AddIdentity\<close>

lemma Propagate_identity_held:
  "getIdentityStorage s (sb_Hash (Data st)) \<noteq> None \<Longrightarrow>
   Propagate env s (MPropagateIdentity st) = Done s"
  by (simp add: Propagate_def)

text \<open>The handler of a new identity takes no mutex, so no member waits.\<close>

lemma waits_identity: "\<not> waits h r s (MPropagateIdentity st)"
  by (simp add: waits_def)

lemma deliver_identity_held:
  assumes "getIdentityStorage (ss r) (sb_Hash (Data st)) \<noteq> None"
  shows "fst (deliver env h c (MPropagateIdentity st) roster ss) r = ss r"
  using assms
proof (induction roster arbitrary: ss)
  case Nil
  then show ?case by simp
next
  case (Cons a roster)
  show ?case
  proof (cases "Propagate env (ss a) (MPropagateIdentity st)")
    case Panic
    then show ?thesis by (simp add: waits_identity)
  next
    case Blocked
    then show ?thesis by (simp add: waits_identity)
  next
    case (Done s')
    have same: "(ss(a := s')) r = ss r"
    proof (cases "a = r")
      case True
      with Done Cons.prems show ?thesis by (simp add: Propagate_identity_held)
    next
      case False
      then show ?thesis by simp
    qed
    obtain ss' x where
      rest: "deliver env h c (MPropagateIdentity st) roster (ss(a := s')) = (ss', x)"
      by (cases "deliver env h c (MPropagateIdentity st) roster (ss(a := s'))")
    from Cons.prems same
    have "getIdentityStorage ((ss(a := s')) r) (sb_Hash (Data st)) \<noteq> None"
      by simp
    then have "fst (deliver env h c (MPropagateIdentity st) roster (ss(a := s'))) r =
                 (ss(a := s')) r"
      by (rule Cons.IH)
    with rest same have "ss' r = ss r"
      by (simp only: fst_conv)
    with Done rest show ?thesis
      by (cases x) (simp_all add: waits_identity)
  qed
qed

lemma Propagate_identity_Done:
  assumes "8 \<le> length (key (sb_Hash (Data st)))" and "Latest st \<noteq> None"
  shows "\<exists>s'. Propagate env s (MPropagateIdentity st) = Done s'"
proof -
  from assms(1) have "\<not> cap (sb_Hash (Data st)) (sb_HashSpare (Data st)) < 8"
    by (cases "sb_Hash (Data st)") (simp_all add: cap_def)
  with assms(2) show ?thesis
    by (auto simp: Propagate_def setIdentityStorage_def Let_def)
qed

lemma deliver_identity_Done:
  assumes "8 \<le> length (key (sb_Hash (Data st)))" and "Latest st \<noteq> None"
  shows "snd (deliver env h c (MPropagateIdentity st) roster ss) = Done (length roster)"
proof (induction roster arbitrary: ss)
  case Nil
  then show ?case by simp
next
  case (Cons a roster)
  from Propagate_identity_Done [OF assms] obtain s' where
    step: "Propagate env (ss a) (MPropagateIdentity st) = Done s'" by blast
  obtain ss' x where
    rest: "deliver env h c (MPropagateIdentity st) roster (ss(a := s')) = (ss', x)"
    by (cases "deliver env h c (MPropagateIdentity st) roster (ss(a := s'))")
  have "snd (deliver env h c (MPropagateIdentity st) roster (ss(a := s'))) =
          Done (length roster)"
    by (rule Cons.IH)
  with rest have "x = Done (length roster)"
    by (simp only: snd_conv)
  with step rest show ?case by (simp add: waits_identity)
qed

text \<open>
  Claim C5, as amended. Let the ledger have created the chains of a new identity whose
  identifier a server \<open>r\<close> already holds. Then the request leaves the service of \<open>r\<close> as it
  was, so the registered storage is not overwritten. The request does not fail on that account:
  the only error it can return here is the one with which the propagation refuses to start,
  and when the propagation starts, the identifier has its eight bytes and a configuration is
  given, it returns the root and data blocks.
\<close>

theorem AddIdentity_never_overwrites:
  assumes roster: "CreateRoster env (ai_Roster ai) = Inr root0"
    and data: "CreateData env root0 (ai_Config ai) = Inr (root, data)"
    and kept: "getIdentityStorage (servers w r) (sb_Hash data) = Some sid"
  shows "servers (fst (AddIdentity env w c ai)) r = servers w r \<and>
         (\<forall>e. snd (AddIdentity env w c ai) = Done (Inl e) \<longrightarrow>
              PropagateRefused env (MPropagateIdentity
                \<lparr>Latest = ai_Config ai, Proposed = None, Votes = None,
                   Root = root, Data = data\<rparr>) = Some e) \<and>
         (PropagateRefused env (MPropagateIdentity
            \<lparr>Latest = ai_Config ai, Proposed = None, Votes = None,
               Root = root, Data = data\<rparr>) = None \<and>
          8 \<le> length (key (sb_Hash data)) \<and> ai_Config ai \<noteq> None \<longrightarrow>
            snd (AddIdentity env w c ai) = Done (Inr \<lparr>air_Root = root, air_Data = data\<rparr>))"
proof -
  let ?ids = "\<lparr>Latest = ai_Config ai, Proposed = None, Votes = None, Root = root, Data = data\<rparr>"
  let ?m = "MPropagateIdentity ?ids"
  obtain ss x where d: "deliver env (held w) c ?m (sb_Roster root) (servers w) = (ss, x)"
    by (cases "deliver env (held w) c ?m (sb_Roster root) (servers w)")
  have run: "AddIdentity env w c ai =
               (case PropagateStartAndWait env w c (sb_Roster root) ?m of
                  (w', Panic) \<Rightarrow> (w', Panic)
                | (w', Blocked) \<Rightarrow> (w', Blocked)
                | (w', Done (Inl e)) \<Rightarrow> (w', Done (Inl e))
                | (w', Done (Inr replies)) \<Rightarrow>
                    (w', Done (Inr \<lparr>air_Root = root, air_Data = data\<rparr>)))"
    using roster data by (simp add: AddIdentity_def)
  from kept have "getIdentityStorage (servers w r) (sb_Hash (Data ?ids)) \<noteq> None"
    by simp
  then have "fst (deliver env (held w) c ?m (sb_Roster root) (servers w)) r = servers w r"
    by (rule deliver_identity_held)
  with d have keep: "ss r = servers w r" by (simp only: fst_conv)
  have 1: "servers (fst (AddIdentity env w c ai)) r = servers w r"
    using run d keep
    by (auto simp: PropagateStartAndWait_def split: option.splits outcome.splits sum.splits)
  have 2: "PropagateRefused env ?m = Some e" if "snd (AddIdentity env w c ai) = Done (Inl e)" for e
    using that run d
    by (auto simp: PropagateStartAndWait_def split: option.splits outcome.splits sum.splits)
  have 3: "snd (AddIdentity env w c ai) = Done (Inr \<lparr>air_Root = root, air_Data = data\<rparr>)"
    if "PropagateRefused env ?m = None" and "8 \<le> length (key (sb_Hash data))"
      and "ai_Config ai \<noteq> None"
  proof -
    from that(2,3) have "snd (deliver env (held w) c ?m (sb_Roster root) (servers w)) =
                           Done (length (sb_Roster root))"
      by (intro deliver_identity_Done) simp_all
    with d have "x = Done (length (sb_Roster root))" by (simp only: snd_conv)
    with run d that(1) show ?thesis
      by (simp add: PropagateStartAndWait_def)
  qed
  from 1 2 3 show ?thesis by blast
qed

theorem AddIdentity_never_overwrites_witness:
  "CreateRoster ex_env (ai_Roster ex_add1) = Inr ex_root \<and>
   CreateData ex_env ex_root (ai_Config ex_add1) = Inr (ex_root, ex_data) \<and>
   getIdentityStorage (servers ex_world1 1) (sb_Hash ex_data) = Some ex_storage1 \<and>
   servers (fst (AddIdentity ex_env ex_world1 0 ex_add1)) 1 = servers ex_world1 1 \<and>
   snd (AddIdentity ex_env ex_world1 0 ex_add1) =
     Done (Inr \<lparr>air_Root = ex_root, air_Data = ex_data\<rparr>)"
proof -
  have h1: "CreateRoster ex_env (ai_Roster ex_add1) = Inr ex_root"
    by (simp add: ex_env_def ex_add1_def ex_root_def)
  have h2: "CreateData ex_env ex_root (ai_Config ex_add1) = Inr (ex_root, ex_data)"
    by (simp add: ex_env_def ex_add1_def ex_root_def ex_data_def)
  have h3: "getIdentityStorage (servers ex_world1 1) (sb_Hash ex_data) = Some ex_storage1"
    by (simp add: ex_data_def ex_world1_holds)
  have h4: "PropagateRefused ex_env m = None" for m
    by (simp add: ex_env_def)
  have h5: "8 \<le> length (key (sb_Hash ex_data)) \<and> ai_Config ex_add1 \<noteq> None"
    by (simp add: ex_data_def ex_add1_def)
  from AddIdentity_never_overwrites [OF h1 h2 h3, of 0] h1 h2 h3 h4 h5 show ?thesis
    by simp
qed

text \<open>The claim C5 as it is written has the request fail with \<open>DuplicateIdentity\<close>. In the
  world where the three servers hold the identity, the identity is added again, the ledger
  answers with the data block of the same hash, and the request returns its blocks.\<close>

theorem AddIdentity_duplicate_succeeds:
  "getIdentityStorage (servers ex_world1 0) (Some ''identity'') = Some ex_storage1 \<and>
   getIdentityStorage (servers ex_world1 1) (Some ''identity'') = Some ex_storage1 \<and>
   getIdentityStorage (servers ex_world1 2) (Some ''identity'') = Some ex_storage1 \<and>
   CreateData ex_env ex_root (ai_Config ex_add1) = Inr (ex_root, ex_data) \<and>
   sb_Hash ex_data = Some ''identity'' \<and>
   snd (AddIdentity ex_env ex_world1 0 ex_add1) =
     Done (Inr \<lparr>air_Root = ex_root, air_Data = ex_data\<rparr>)"
  by (simp add: ex_world1_holds)
     (simp add: ex_defs run_defs)

end
